theory Spec2Isabelle
  imports Complex_Main "HOL-Library.Word" "HOL-Library.Monad_Syntax"
begin

section \<open>Data model of the effect node\<close>

text \<open>
  The embedding follows \<^verbatim>\<open>EffectNode.cpp\<close> (the third document of
  \<^verbatim>\<open>src/src/OutputWindow.h\<close>). Qt containers are values: \<^verbatim>\<open>QVector\<close> is a list,
  \<^verbatim>\<open>QMap<QSharedPointer<Chain>, QSharedPointer<EffectNodeRenderState>>\<close> is a map keyed by
  the identity of the chain. Every entry of that map owns a render state object of its
  own (\<^verbatim>\<open>chainsEdited\<close> and the copy constructor allocate one per key), so no two keys
  alias one object and a map of values describes it.

  \<^verbatim>\<open>qreal\<close> is a double. The functions modelled here only compare and store it
  (and subtract two wall-clock readings for a uniform value), so it is taken as a real
  number; a NaN argument is outside the model.
\<close>

type_synonym GLuint = "32 word"

datatype fbo = Fbo (texture: GLuint) (fbo_size: "int \<times> int")

record chain =
  chain_id :: nat
  chain_size :: "int \<times> int"
  noiseTexture :: GLuint

text \<open>
  Modelled from the spec: \<^verbatim>\<open>EffectNodeRenderState\<close> is declared in \<^verbatim>\<open>EffectNode.h\<close>, which
  is not among the sources. The spec gives it as
  \<^verbatim>\<open>{ intermediate: ring of framebuffer/texture pairs, ringIndex: uint }\<close>; the field names
  are those the code uses.
\<close>

record render_state =
  m_intermediate :: "fbo list"
  m_textureIndex :: nat

datatype program = Program (vertex_source: string) (fragment_source: string)

record effect_node =
  m_name :: string
  m_inputCount :: nat
  m_intensity :: real
  m_intensityIntegral :: real
  m_ready :: bool
  m_programs :: "program list"
  m_renderStates :: "nat \<rightharpoonup> render_state"
  m_realTime :: real
  m_realTimeLast :: real

subsection \<open>Observable effects\<close>

text \<open>
  Besides the new node, every operation returns the effects it performed, in program
  order: taking and releasing \<^verbatim>\<open>m_stateLock\<close> (the scope of a \<^verbatim>\<open>QMutexLocker\<close>), the member
  it stored to, the signals it emitted, the \<^verbatim>\<open>qDebug\<close> lines it wrote, the queued call of
  the worker's \<^verbatim>\<open>initialize\<close> slot, and the OpenGL calls it issued.
\<close>

datatype field = F_ready | F_name | F_intensity | F_programs | F_renderStates

datatype signal =
    IntensityChanged real
  | NameChanged string
  | Fatal string
  | Initialized

datatype debug_msg =
    NotReady
  | DoesNotHaveChain nat
  | ChainDeleted
  | LoadFailed
  | SettingProperty string string

datatype uniform =
    UFloat real
  | UInt nat
  | UVec2 real real
  | UVec4 real real real real
  | UArray "nat list"

datatype gl_call =
    CreateFbo "int \<times> int"
  | ClearColor
  | DisableDepthTest
  | DisableBlend
  | Viewport int int
  | ProgramBind program
  | ProgramRelease program
  | FboBind fbo
  | FboRelease fbo
  | ActiveTexture nat
  | BindTexture GLuint
  | SetUniform string uniform
  | DrawArrays
  | Flush

datatype effect =
    Acquire
  | Release
  | Store field
  | Emit signal
  | Debug debug_msg
  | Invoke_initialize
  | GL gl_call

section \<open>Editing operations\<close>

definition intensity :: "effect_node \<Rightarrow> real" where
  "intensity n = m_intensity n"

text \<open>
  \<^verbatim>\<open>setIntensity\<close>: the clamp, the comparison and the store are inside the locker's
  scope; the early \<^verbatim>\<open>return\<close> leaves the scope, which releases the lock, and skips the
  signal.
\<close>

definition setIntensity :: "real \<Rightarrow> effect_node \<Rightarrow> effect_node \<times> effect list" where
  "setIntensity value n =
     (let v1 = (if value > 1 then 1 else value);
          v2 = (if v1 < 0 then 0 else v1)
      in if m_intensity n = v2 then (n, [Acquire, Release])
         else (n\<lparr>m_intensity := v2\<rparr>,
               [Acquire, Store F_intensity, Release, Emit (IntensityChanged v2)]))"

definition name :: "effect_node \<Rightarrow> string" where
  "name n = m_name n"

text \<open>
  \<^verbatim>\<open>setName\<close> and \<^verbatim>\<open>reload\<close>. \<^verbatim>\<open>QMetaObject::invokeMethod(worker, "initialize")\<close> queues
  the worker's slot; the slot exists, so the call returns true and the assertion on its
  result holds. The store to \<^verbatim>\<open>m_ready\<close> is outside the locker's scope in both.
\<close>

definition setName :: "string \<Rightarrow> effect_node \<Rightarrow> effect_node \<times> effect list" where
  "setName nm n =
     (if nm \<noteq> m_name n
      then (n\<lparr>m_ready := False, m_name := nm\<rparr>,
            [Store F_ready, Acquire, Store F_name, Release, Invoke_initialize,
             Emit (NameChanged nm)])
      else (n, []))"

definition reload :: "effect_node \<Rightarrow> effect_node \<times> effect list" where
  "reload n = (n\<lparr>m_ready := False\<rparr>, [Store F_ready, Invoke_initialize])"

definition onInitialized :: "effect_node \<Rightarrow> effect_node" where
  "onInitialized n = n\<lparr>m_ready := True\<rparr>"

text \<open>
  \<^verbatim>\<open>chainsEdited\<close>: the added chains get a default-constructed render state, then the
  removed ones are erased. The constructor of \<^verbatim>\<open>EffectNodeRenderState\<close> is not among the
  sources; the spec calls its result a fresh empty render state, taken here as an empty
  ring with the cursor at 0.
\<close>

definition new_render_state :: render_state where
  "new_render_state = \<lparr>m_intermediate = [], m_textureIndex = 0\<rparr>"

definition chainsEdited :: "chain list \<Rightarrow> chain list \<Rightarrow> effect_node \<Rightarrow> effect_node \<times> effect list" where
  "chainsEdited added removed n =
     (let rs1 = fold (\<lambda>c m. m(chain_id c \<mapsto> new_render_state)) added (m_renderStates n);
          rs2 = fold (\<lambda>c m. m(chain_id c := None)) removed rs1
      in (n\<lparr>m_renderStates := rs2\<rparr>, [Acquire, Store F_renderStates, Release]))"

text \<open>
  \<^verbatim>\<open>copyBackRenderState\<close>. \<^verbatim>\<open>QMap::value\<close> of an absent key is a null shared pointer, and
  the assignment dereferences it: that is the result \<open>None\<close>.
\<close>

definition copyBackRenderState ::
  "chain \<Rightarrow> effect_node \<Rightarrow> effect_node \<Rightarrow> (effect_node \<times> effect list) option" where
  "copyBackRenderState ch c n =
     (case m_renderStates n (chain_id ch) of
        Some _ \<Rightarrow>
          (case m_renderStates c (chain_id ch) of
             None \<Rightarrow> None
           | Some s \<Rightarrow>
               Some (n\<lparr>m_renderStates := (m_renderStates n)(chain_id ch \<mapsto> s)\<rparr>,
                     [Acquire, Store F_renderStates, Release]))
      | None \<Rightarrow> Some (n, [Acquire, Debug ChainDeleted, Release]))"

section \<open>Painting\<close>

text \<open>
  What \<^verbatim>\<open>paint\<close> reads from its surroundings: the timebase, the audio levels (in the
  order of the arguments of \<^verbatim>\<open>Audio::levels\<close>: high, mid, low, level), the constant \<^verbatim>\<open>FPS\<close>
  of \<^verbatim>\<open>main.h\<close> (not among the sources, so a parameter), and the framebuffer object the
  driver hands out for the i-th allocation of a given size.
\<close>

record env =
  beat :: real
  wallTime :: real
  levels :: "real \<times> real \<times> real \<times> real"
  FPS :: real
  createFbo :: "nat \<Rightarrow> int \<times> int \<Rightarrow> fbo"

text \<open>
  \<^verbatim>\<open>QVector::at\<close> asserts that the index is in range; an index out of range is the
  result \<open>None\<close>, which ends the call.
\<close>

definition qvec_at :: "'a list \<Rightarrow> nat \<Rightarrow> 'a option" where
  "qvec_at xs i = (if i < length xs then Some (xs ! i) else None)"

text \<open>The loop over the graph inputs (texture units 0 to \<^verbatim>\<open>m_inputCount\<close> - 1).\<close>

definition bindInputs :: "nat \<Rightarrow> GLuint list \<Rightarrow> gl_call list option" where
  "bindInputs inputCount inputTextures =
     map_option concat
       (those (map (\<lambda>k. map_option (\<lambda>t. [ActiveTexture k, BindTexture t])
                                    (qvec_at inputTextures k))
                   [0..<inputCount]))"

text \<open>
  The ring slot whose texture pass \<open>j\<close> binds as channel \<open>k\<close>, and the slot pass \<open>j\<close>
  renders into; \<open>P\<close> is \<^verbatim>\<open>m_programs.size()\<close>. The C++ \<^verbatim>\<open>(j < k)\<close> is 1 or 0.
\<close>

definition channelSlot :: "nat \<Rightarrow> nat \<Rightarrow> nat \<Rightarrow> nat \<Rightarrow> nat" where
  "channelSlot textureIndex P j k = (textureIndex + k + (if j < k then 1 else 0)) mod (P + 1)"

definition fboIndex :: "nat \<Rightarrow> nat \<Rightarrow> nat \<Rightarrow> nat" where
  "fboIndex textureIndex P j = (textureIndex + j + 1) mod (P + 1)"

definition bindChannels :: "render_state \<Rightarrow> nat \<Rightarrow> nat \<Rightarrow> nat \<Rightarrow> gl_call list option" where
  "bindChannels rs P inputCount j =
     map_option concat
       (those (map (\<lambda>k. map_option (\<lambda>f. [ActiveTexture (1 + inputCount + k), BindTexture (texture f)])
                                    (qvec_at (m_intermediate rs) (channelSlot (m_textureIndex rs) P j k)))
                   [0..<P]))"

definition setUniforms :: "effect_node \<Rightarrow> chain \<Rightarrow> env \<Rightarrow> real \<Rightarrow> real \<Rightarrow> gl_call list" where
  "setUniforms n ch e step time =
     (case levels e of (audioHi, audioMid, audioLow, audioLevel) \<Rightarrow>
        [SetUniform ''iIntensity'' (UFloat (intensity n)),
         SetUniform ''iIntensityIntegral'' (UFloat (m_intensityIntegral n)),
         SetUniform ''iStep'' (UFloat step),
         SetUniform ''iTime'' (UFloat time),
         SetUniform ''iFPS'' (UFloat (FPS e)),
         SetUniform ''iAudio'' (UVec4 audioLow audioMid audioHi audioLevel),
         SetUniform ''iInputs'' (UArray [0..<m_inputCount n]),
         SetUniform ''iNoise'' (UInt (m_inputCount n)),
         SetUniform ''iResolution'' (UVec2 (real_of_int (fst (chain_size ch)))
                                           (real_of_int (snd (chain_size ch)))),
         SetUniform ''iChannel''
           (UArray [1 + m_inputCount n..<1 + m_inputCount n + length (m_programs n)])])"

text \<open>One iteration of the loop over the passes, for the pass ordinal \<open>j\<close>.\<close>

definition paintPass ::
  "effect_node \<Rightarrow> render_state \<Rightarrow> chain \<Rightarrow> GLuint list \<Rightarrow> env \<Rightarrow> real \<Rightarrow> real \<Rightarrow> nat
     \<Rightarrow> gl_call list option" where
  "paintPass n rs ch inputTextures e step time j =
     do {
       p \<leftarrow> qvec_at (m_programs n) j;
       target \<leftarrow> qvec_at (m_intermediate rs)
                   (fboIndex (m_textureIndex rs) (length (m_programs n)) j);
       ins \<leftarrow> bindInputs (m_inputCount n) inputTextures;
       chans \<leftarrow> bindChannels rs (length (m_programs n)) (m_inputCount n) j;
       Some ([ProgramBind p, FboBind target] @ ins
             @ [ActiveTexture (m_inputCount n), BindTexture (noiseTexture ch)] @ chans
             @ setUniforms n ch e step time
             @ [DrawArrays, FboRelease target, ProgramRelease p, ActiveTexture 0])
     }"

text \<open>
  The ring is allocated on the first paint of a chain, with one slot more than there
  are programs at that moment; a ring that is not empty is kept as it is.
\<close>

definition allocateRing :: "effect_node \<Rightarrow> chain \<Rightarrow> env \<Rightarrow> render_state \<Rightarrow> render_state \<times> gl_call list" where
  "allocateRing n ch e rs =
     (if m_intermediate rs = []
      then (rs\<lparr>m_intermediate := map (\<lambda>i. createFbo e i (chain_size ch))
                                     [0..<length (m_programs n) + 1]\<rparr>,
            replicate (length (m_programs n) + 1) (CreateFbo (chain_size ch)))
      else (rs, []))"

text \<open>
  \<^verbatim>\<open>paint\<close>. The loop runs \<open>j\<close> from \<^verbatim>\<open>m_programs.count() - 1\<close> down to 0. The result is
  the returned texture, the node after the call and the effects.
\<close>

definition paint ::
  "chain \<Rightarrow> GLuint list \<Rightarrow> env \<Rightarrow> effect_node \<Rightarrow> (GLuint \<times> effect_node \<times> effect list) option" where
  "paint ch inputTextures e n =
     (if \<not> m_ready n then Some (0, n, [Debug NotReady])
      else case m_renderStates n (chain_id ch) of
        None \<Rightarrow> Some (0, n, [Debug (DoesNotHaveChain (chain_id ch))])
      | Some rs0 \<Rightarrow>
          (case allocateRing n ch e rs0 of (rs, alloc) \<Rightarrow>
             let P = length (m_programs n);
                 time = beat e;
                 n1 = n\<lparr>m_realTimeLast := m_realTime n, m_realTime := wallTime e\<rparr>;
                 step = m_realTime n1 - m_realTimeLast n1
             in do {
               passes \<leftarrow> those (map (paintPass n1 rs ch inputTextures e step time) (rev [0..<P]));
               out \<leftarrow> qvec_at (m_intermediate rs) ((m_textureIndex rs + 1) mod (P + 1));
               Some (texture out,
                     n1\<lparr>m_renderStates := (m_renderStates n1)
                          (chain_id ch \<mapsto> rs\<lparr>m_textureIndex := (m_textureIndex rs + 1) mod (P + 1)\<rparr>)\<rparr>,
                     map GL (alloc @ [ClearColor, DisableDepthTest, DisableBlend,
                                      Viewport (fst (chain_size ch)) (snd (chain_size ch))]
                             @ concat passes))
             }))"

text \<open>A run of consecutive \<^verbatim>\<open>paint\<close> calls for one chain, each with its inputs and surroundings.\<close>

fun paints :: "chain \<Rightarrow> (GLuint list \<times> env) list \<Rightarrow> effect_node \<Rightarrow> (GLuint list \<times> effect_node) option" where
  "paints ch [] n = Some ([], n)"
| "paints ch ((inputTextures, e) # rest) n =
     (case paint ch inputTextures e n of
        None \<Rightarrow> None
      | Some (t, n', _) \<Rightarrow> map_option (\<lambda>(ts, n''). (t # ts, n'')) (paints ch rest n'))"

subsection \<open>What a draw call sees\<close>





section \<open>Loading an effect\<close>

subsection \<open>Strings\<close>

definition newline :: char where
  "newline = CHR 0x0A"

definition dquote :: char where
  "dquote = CHR 0x22"

text \<open>\<^verbatim>\<open>QStringList::join\<close>.\<close>

fun join :: "string \<Rightarrow> string list \<Rightarrow> string" where
  "join sep [] = []"
| "join sep [x] = x"
| "join sep (x # y # ys) = x @ sep @ join sep (y # ys)"

text \<open>\<^verbatim>\<open>QString("%1").arg(int)\<close>: the decimal digits of a number.\<close>

definition digit :: "nat \<Rightarrow> char" where
  "digit d = char_of (48 + d)"

function number :: "nat \<Rightarrow> string" where
  "number k = (if k < 10 then [digit k] else number (k div 10) @ [digit (k mod 10)])"
  by pat_completeness auto
termination
  by (relation "measure id") auto

definition line_marker :: "nat \<Rightarrow> string" where
  "line_marker lineno = ''#line '' @ number lineno"

text \<open>
  The character classes of the two regular expressions, on the 8-bit characters of
  \<open>string\<close>: \<^verbatim>\<open>\s\<close> is space, tab, line feed, vertical tab, form feed and carriage return;
  \<^verbatim>\<open>\w\<close> is a letter, a digit or the underscore. \<open>lower\<close> folds the case of a letter, for
  the case-insensitive option. A \<^verbatim>\<open>QString\<close> holds 16-bit code units; the texts of this
  development are those of code points below 256. Among these only the letters \<^verbatim>\<open>A\<close> to \<^verbatim>\<open>Z\<close>
  fold to a letter of the two patterns. The code points above that the case-insensitive
  option folds to such a letter (U+017F to \<^verbatim>\<open>s\<close>) are not texts of \<open>string\<close>, and a line
  holding one is outside the statements below.
\<close>

definition isSpace :: "char \<Rightarrow> bool" where
  "isSpace c = (c = CHR '' '' \<or> (9 \<le> (of_char c :: nat) \<and> (of_char c :: nat) \<le> 13))"

definition isWord :: "char \<Rightarrow> bool" where
  "isWord c =
     (let k = (of_char c :: nat)
      in (48 \<le> k \<and> k \<le> 57) \<or> (65 \<le> k \<and> k \<le> 90) \<or> (97 \<le> k \<and> k \<le> 122) \<or> c = CHR ''_'')"

definition lower :: "char \<Rightarrow> char" where
  "lower c = (let k = (of_char c :: nat) in if 65 \<le> k \<and> k \<le> 90 then char_of (k + 32) else c)"

subsection \<open>Reading lines\<close>

text \<open>
  \<^verbatim>\<open>QTextStream::readLineInto\<close>, called until it returns false: a line ends at a line
  feed; a carriage return right before the line feed, or at the very end of the text, is
  not part of the line; the text after the last line feed is a line when it is not empty.
  \<open>cur\<close> holds the characters of the line being read.
\<close>

definition finish_line :: "string \<Rightarrow> string" where
  "finish_line cur = (if cur \<noteq> [] \<and> last cur = CHR 0x0D then butlast cur else cur)"

fun readLinesFrom :: "string \<Rightarrow> string \<Rightarrow> string list" where
  "readLinesFrom cur [] = (if cur = [] then [] else [finish_line cur])"
| "readLinesFrom cur (c # cs) =
     (if c = newline then finish_line cur # readLinesFrom [] cs
      else readLinesFrom (cur @ [c]) cs)"

definition readLines :: "string \<Rightarrow> string list" where
  "readLines txt = readLinesFrom [] txt"

subsection \<open>The two directives\<close>

text \<open>
  \<^verbatim>\<open>^\s*#buffershader\s*$\<close> and \<^verbatim>\<open>^\s*#property\s+(?<name>\w+)\s+(?<value>.*)$\<close>, both
  case-insensitive, matched against one line (which holds no line feed, so \<^verbatim>\<open>.*\<close> takes
  the rest of it). The classes \<^verbatim>\<open>\s\<close> and \<^verbatim>\<open>\w\<close> are disjoint and neither holds \<^verbatim>\<open>#\<close>, so
  each greedy repetition ends at one place only and a match is found without backtracking.
\<close>

definition match_buffershader :: "string \<Rightarrow> bool" where
  "match_buffershader line =
     (let l1 = dropWhile isSpace line
      in map lower (take 13 l1) = ''#buffershader'' \<and> dropWhile isSpace (drop 13 l1) = [])"

definition match_property :: "string \<Rightarrow> (string \<times> string) option" where
  "match_property line =
     (let l1 = dropWhile isSpace line
      in if map lower (take 9 l1) \<noteq> ''#property'' then None
         else let l2 = drop 9 l1; l3 = dropWhile isSpace l2
              in if l3 = l2 then None
                 else let nm = takeWhile isWord l3; l4 = dropWhile isWord l3
                      in if nm = [] then None
                         else let l5 = dropWhile isSpace l4
                              in if l5 = l4 then None else Some (nm, l5))"

subsection \<open>The property map\<close>

text \<open>
  \<^verbatim>\<open>QMap<QString,QString>\<close>: the entries in the order of their keys (\<^verbatim>\<open>QString\<close>'s
  \<^verbatim>\<open><\<close> compares character codes), one entry for each key; \<^verbatim>\<open>insert\<close> replaces the value
  of a key that is present.
\<close>

fun qstring_less :: "string \<Rightarrow> string \<Rightarrow> bool" where
  "qstring_less [] [] = False"
| "qstring_less [] (y # ys) = True"
| "qstring_less (x # xs) [] = False"
| "qstring_less (x # xs) (y # ys) =
     (if (of_char x :: nat) < of_char y then True
      else if (of_char y :: nat) < of_char x then False
      else qstring_less xs ys)"

fun qmap_insert :: "string \<Rightarrow> string \<Rightarrow> (string \<times> string) list \<Rightarrow> (string \<times> string) list" where
  "qmap_insert k v [] = [(k, v)]"
| "qmap_insert k v ((k', v') # m) =
     (if qstring_less k k' then (k, v) # (k', v') # m
      else if qstring_less k' k then (k', v') # qmap_insert k v m
      else (k, v) # m)"

subsection \<open>Splitting the source into passes\<close>

text \<open>
  \<^verbatim>\<open>passes.back().append(x)\<close>; \<^verbatim>\<open>back()\<close> of an empty vector is undefined, the result
  \<open>None\<close>.
\<close>

definition append_back :: "string list list \<Rightarrow> string \<Rightarrow> string list list option" where
  "append_back passes x =
     (if passes = [] then None else Some (butlast passes @ [last passes @ [x]]))"

text \<open>
  The loop over the lines. The state is the pass list, the property map and the
  \<^verbatim>\<open>qDebug\<close> lines written so far; \<open>lineno\<close> counts the lines read.
\<close>

fun parseLines ::
  "nat \<Rightarrow> string list \<Rightarrow> string list list \<times> (string \<times> string) list \<times> effect list
     \<Rightarrow> (string list list \<times> (string \<times> string) list \<times> effect list) option" where
  "parseLines lineno [] st = Some st"
| "parseLines lineno (next_line # rest) (passes, props, dbg) =
     (case match_property next_line of
        Some (nm, v) \<Rightarrow>
          (case append_back passes (line_marker lineno) of
             None \<Rightarrow> None
           | Some passes' \<Rightarrow>
               parseLines (lineno + 1) rest
                 (passes', qmap_insert nm v props, dbg @ [Debug (SettingProperty nm v)]))
      | None \<Rightarrow>
          if match_buffershader next_line
          then parseLines (lineno + 1) rest (passes @ [[line_marker lineno]], props, dbg)
          else (case append_back passes next_line of
                  None \<Rightarrow> None
                | Some passes' \<Rightarrow> parseLines (lineno + 1) rest (passes', props, dbg)))"

definition parseSource ::
  "string \<Rightarrow> (string list list \<times> (string \<times> string) list \<times> effect list) option" where
  "parseSource txt =
     parseLines 0 (readLines txt) ([[''#line 0'']], [(''inputCount'', ''1'')], [])"

subsection \<open>Compiling and linking\<close>

text \<open>
  What the loader reads from its surroundings: whether a path is an existing file, the
  text of a file that can be opened, and the verdicts of the GLSL compiler and linker.
\<close>

record loader_env =
  isFile :: "string \<Rightarrow> bool"
  readAll :: "string \<rightharpoonup> string"
  compileVertex :: "string \<Rightarrow> bool"
  compileFragment :: "string \<Rightarrow> bool"
  link :: "string \<Rightarrow> string \<Rightarrow> bool"

definition vertexString :: string where
  "vertexString =
     ''#version 130'' @ [newline]
     @ ''#extension GL_ARB_shading_language_420pack : enable'' @ [newline]
     @ ''const vec2 varray[4] = { vec2( 1., 1.),vec2(1., -1.),vec2(-1., 1.),vec2(-1., -1.)};'' @ [newline]
     @ ''out vec2 coords;'' @ [newline]
     @ ''void main() {''
     @ ''    vec2 vertex = varray[gl_VertexID];'' @ [newline]
     @ ''    gl_Position = vec4(vertex,0.,1.);'' @ [newline]
     @ ''    coords = vertex;'' @ [newline]
     @ ''}''"

definition header_path :: string where
  "header_path = ''../resources/glsl/effect_header.glsl''"

definition effect_path :: "string \<Rightarrow> string" where
  "effect_path nm = ''../resources/effects/'' @ nm @ ''.glsl''"

definition could_not_open :: "string \<Rightarrow> string" where
  "could_not_open path = ''Could not open '' @ [dquote] @ path @ [dquote]"

definition no_shaders_found :: "string \<Rightarrow> string" where
  "no_shaders_found nm = ''No shaders found for '' @ [dquote] @ nm @ [dquote]"

definition fragment_of :: "string \<Rightarrow> string list \<Rightarrow> string" where
  "fragment_of headerString pass = headerString @ [newline] @ join [newline] pass"

text \<open>
  The loop over the passes: \<open>programs\<close> holds the programs built so far; the first stage
  that fails ends the loop with the text of the fatal signal.
\<close>

fun compilePasses :: "loader_env \<Rightarrow> string \<Rightarrow> string list list \<Rightarrow> program list \<Rightarrow> string + program list" where
  "compilePasses e headerString [] programs = Inr programs"
| "compilePasses e headerString (pass # rest) programs =
     (if \<not> compileVertex e vertexString then Inl ''Could not compile vertex shader''
      else if \<not> compileFragment e (fragment_of headerString pass)
           then Inl ''Could not compile fragment shader''
      else if \<not> link e vertexString (fragment_of headerString pass)
           then Inl ''Could not link shader program''
      else compilePasses e headerString rest
             (programs @ [Program vertexString (fragment_of headerString pass)]))"

text \<open>
  \<^verbatim>\<open>loadProgram\<close>. \<^verbatim>\<open>Q_ASSERT(!m_p->m_ready)\<close> ends the call when the node is marked ready
  (the result \<open>None\<close>). The result is the returned flag, the node after the call and the
  effects.
\<close>

definition loadProgram ::
  "loader_env \<Rightarrow> string \<Rightarrow> effect_node \<Rightarrow> (bool \<times> effect_node \<times> effect list) option" where
  "loadProgram e nm n =
     (if m_ready n then None
      else (case readAll e header_path of
        None \<Rightarrow> Some (False, n, [Emit (Fatal (could_not_open ''../resources/effect_header.glsl''))])
      | Some headerString \<Rightarrow>
          (if \<not> isFile e (effect_path nm)
           then Some (False, n, [Emit (Fatal (could_not_open (effect_path nm)))])
           else (case readAll e (effect_path nm) of
             None \<Rightarrow> Some (False, n, [Emit (Fatal (could_not_open (effect_path nm)))])
           | Some txt \<Rightarrow>
               (case parseSource txt of
                  None \<Rightarrow> None
                | Some (passes, props, dbg) \<Rightarrow>
                    (case compilePasses e headerString passes [] of
                       Inl reason \<Rightarrow> Some (False, n, dbg @ [Emit (Fatal reason)])
                     | Inr programs \<Rightarrow>
                         (if programs = []
                          then Some (False, n, dbg @ [Emit (Fatal (no_shaders_found nm))])
                          else Some (True, n\<lparr>m_programs := programs\<rparr>,
                                     dbg @ [Acquire, Store F_programs, Release]))))))))"

text \<open>
  The worker's slot \<^verbatim>\<open>initialize\<close>, and the node's reaction to the worker's \<^verbatim>\<open>initialized\<close>
  signal (\<open>onInitialized\<close> above).
\<close>

definition initialize :: "loader_env \<Rightarrow> effect_node \<Rightarrow> (effect_node \<times> effect list) option" where
  "initialize e n =
     (case loadProgram e (m_name n) n of
        None \<Rightarrow> None
      | Some (result, n', effects) \<Rightarrow>
          if \<not> result then Some (n', effects @ [Debug LoadFailed])
          else Some (n', effects @ [GL Flush, Emit Initialized]))"

section \<open>Notions used in the statements\<close>

text \<open>The signals emitted and the members stored to, in the order of a list of effects.\<close>

fun emitted :: "effect list \<Rightarrow> signal list" where
  "emitted [] = []"
| "emitted (Emit s # es) = s # emitted es"
| "emitted (_ # es) = emitted es"

fun stores :: "effect list \<Rightarrow> field list" where
  "stores [] = []"
| "stores (Store f # es) = f # stores es"
| "stores (_ # es) = stores es"

definition is_debug :: "effect \<Rightarrow> bool" where
  "is_debug x = (case x of Debug _ \<Rightarrow> True | _ \<Rightarrow> False)"



text \<open>A pass builds when the vertex stage, its fragment stage and the link all succeed.\<close>

definition builds :: "loader_env \<Rightarrow> string \<Rightarrow> string list \<Rightarrow> bool" where
  "builds e headerString pass =
     (compileVertex e vertexString \<and> compileFragment e (fragment_of headerString pass)
      \<and> link e vertexString (fragment_of headerString pass))"

text \<open>A line of the form \<^verbatim>\<open>#line\<close>, a space and a decimal number; a pass that begins with one.\<close>

definition is_digit :: "char \<Rightarrow> bool" where
  "is_digit c = (48 \<le> (of_char c :: nat) \<and> (of_char c :: nat) \<le> 57)"

definition is_line_marker :: "string \<Rightarrow> bool" where
  "is_line_marker l = (take 6 l = ''#line '' \<and> drop 6 l \<noteq> [] \<and> list_all is_digit (drop 6 l))"

definition marked :: "string list \<Rightarrow> bool" where
  "marked p = (case p of [] \<Rightarrow> False | l # _ \<Rightarrow> is_line_marker l)"



text \<open>
  Modelled from the spec: the application of the parsed properties to the node. In
  \<^verbatim>\<open>loadProgram\<close> the block that would do it is commented out, and the setters it would
  reach (the Qt properties declared in \<^verbatim>\<open>EffectNode.h\<close> and \<^verbatim>\<open>VideoNode.h\<close>) are not among
  the sources. The spec: each key of the property map is looked up against the node's
  named-setter registry and applied; an unknown or invalid name is skipped. A registry
  maps a name to a setter, and a setter fails on a value it cannot read.
\<close>

type_synonym registry = "string \<rightharpoonup> (string \<Rightarrow> effect_node \<Rightarrow> effect_node option)"

fun applyProperties :: "registry \<Rightarrow> (string \<times> string) list \<Rightarrow> effect_node \<Rightarrow> effect_node" where
  "applyProperties reg [] n = n"
| "applyProperties reg ((k, v) # props) n =
     (case reg k of
        None \<Rightarrow> applyProperties reg props n
      | Some setter \<Rightarrow>
          (case setter v n of
             None \<Rightarrow> applyProperties reg props n
           | Some n' \<Rightarrow> applyProperties reg props n'))"

fun decimal :: "nat \<Rightarrow> string \<Rightarrow> nat option" where
  "decimal acc [] = Some acc"
| "decimal acc (c # cs) =
     (if 48 \<le> (of_char c :: nat) \<and> (of_char c :: nat) \<le> 57
      then decimal (10 * acc + (of_char c - 48)) cs else None)"

text \<open>
  Modelled from the spec: the setter of \<^verbatim>\<open>inputCount\<close> (the constructor calls
  \<^verbatim>\<open>setInputCount(1)\<close>; its declaration is not among the sources), reading a decimal number.
\<close>

definition setInputCount :: "string \<Rightarrow> effect_node \<Rightarrow> effect_node option" where
  "setInputCount v n =
     (if v = [] then None else map_option (\<lambda>k. n\<lparr>m_inputCount := k\<rparr>) (decimal 0 v))"

definition example_registry :: registry where
  "example_registry = [''inputCount'' \<mapsto> setInputCount]"

subsection \<open>A node with two passes, painted twice\<close>

definition example_chain :: chain where
  "example_chain = \<lparr>chain_id = 0, chain_size = (4, 3), noiseTexture = 9\<rparr>"

definition example_env :: env where
  "example_env = \<lparr>beat = 0, wallTime = 1, levels = (0, 0, 0, 0), FPS = 60,
                   createFbo = (\<lambda>i sz. Fbo (of_nat (10 + i)) sz)\<rparr>"

definition example_node :: effect_node where
  "example_node = \<lparr>m_name = ''test'', m_inputCount = 1, m_intensity = 0, m_intensityIntegral = 0,
      m_ready = True, m_programs = [Program ''v'' ''a'', Program ''v'' ''b''],
      m_renderStates = [0 \<mapsto> new_render_state], m_realTime = 0, m_realTimeLast = 0\<rparr>"

definition example_frame1 :: "GLuint \<times> effect_node \<times> effect list" where
  "example_frame1 = the (paint example_chain [7] example_env example_node)"


definition example_run :: "nat \<Rightarrow> GLuint list \<times> effect_node" where
  "example_run k = the (paints example_chain (replicate k ([7], example_env)) example_node)"

subsection \<open>Sources and surroundings for the loader\<close>

definition example_source :: string where
  "example_source = ''#property foo 3'' @ [newline] @ ''LINE_A'' @ [newline]
                    @ ''#buffershader'' @ [newline] @ ''LINE_B'' @ [newline]"

definition property_source :: string where
  "property_source = ''#property inputCount 2'' @ [newline]"

definition unready_node :: effect_node where
  "unready_node = example_node\<lparr>m_ready := False, m_name := ''purple''\<rparr>"


text \<open>Every stage compiles and links; the effect \<^verbatim>\<open>purple\<close> sets \<^verbatim>\<open>inputCount\<close> to 2.\<close>

definition working_env :: loader_env where
  "working_env = \<lparr>isFile = (\<lambda>p. p = effect_path ''purple''),
                   readAll = [header_path \<mapsto> ''H'', effect_path ''purple'' \<mapsto> property_source],
                   compileVertex = (\<lambda>_. True), compileFragment = (\<lambda>_. True), link = (\<lambda>_ _. True)\<rparr>"

definition loaded_node :: effect_node where
  "loaded_node = unready_node\<lparr>m_programs :=
      [Program vertexString (fragment_of ''H'' [''#line 0'', ''#line 0''])]\<rparr>"

text \<open>
  A node with three passes is painted three times for the example chain, then reloaded
  with an effect of one pass (\<^verbatim>\<open>reload\<close>, the worker's \<^verbatim>\<open>initialize\<close>, \<^verbatim>\<open>onInitialized\<close>). Nothing
  on this way touches the render state, so the ring of four slots and the cursor stay.
\<close>

definition three_node :: effect_node where
  "three_node = example_node\<lparr>m_name := ''purple'',
      m_programs := [Program ''v'' ''a'', Program ''v'' ''b'', Program ''v'' ''c'']\<rparr>"

definition stale_node :: effect_node where
  "stale_node =
     onInitialized (fst (the (initialize working_env
       (fst (reload (snd (the (paints example_chain (replicate 3 ([7], example_env)) three_node))))))))"

chapter \<open>Properties\<close>

section \<open>Editing operations: intensity, name, reload\<close>

text \<open>
  The operations of the editing side are straight-line code: their properties follow by
  unfolding the definitions.
\<close>

text \<open>
  Claim C7. After \<^verbatim>\<open>setIntensity(x)\<close>, for every real \<open>x\<close>, \<^verbatim>\<open>intensity()\<close> is \<open>x\<close> clamped to the
  interval from 0 to 1, that is \<open>max 0 (min 1 x)\<close>, and so lies between 0 and 1;
  \<^verbatim>\<open>setIntensity(1.5)\<close> gives 1 and \<^verbatim>\<open>setIntensity(-0.2)\<close> gives 0 (the value is clamped, the
  call is not rejected). The call changes the intensity only, and it emits the
  intensity-changed signal, with the clamped value, exactly when that differs from the
  value before. A second call that results in the value the first one left is a no-op:
  the node is unchanged, only the lock is taken and released, and over the two calls the
  signal is emitted at most once.
\<close>

theorem setIntensity_clamped:
  "intensity (fst (setIntensity x n)) = max 0 (min 1 x)
   \<and> 0 \<le> intensity (fst (setIntensity x n)) \<and> intensity (fst (setIntensity x n)) \<le> 1
   \<and> intensity (fst (setIntensity 1.5 n)) = 1
   \<and> intensity (fst (setIntensity (- 0.2) n)) = 0
   \<and> fst (setIntensity x n) = n\<lparr>m_intensity := max 0 (min 1 x)\<rparr>
   \<and> snd (setIntensity x n) =
        (if intensity n = max 0 (min 1 x) then [Acquire, Release]
         else [Acquire, Store F_intensity, Release, Emit (IntensityChanged (max 0 (min 1 x)))])
   \<and> (intensity (fst (setIntensity y (fst (setIntensity x n)))) = intensity (fst (setIntensity x n))
        \<longrightarrow> setIntensity y (fst (setIntensity x n)) = (fst (setIntensity x n), [Acquire, Release])
            \<and> length (emitted (snd (setIntensity x n) @ snd (setIntensity y (fst (setIntensity x n))))) \<le> 1)"
  by (auto simp: setIntensity_def intensity_def Let_def)

text \<open>
  The two calls \<^verbatim>\<open>setIntensity(1.5)\<close> and \<^verbatim>\<open>setIntensity(2)\<close> on the example node: both result in
  1, and the signal is emitted once. A value inside the interval, 0.25, is stored as it is.
\<close>

theorem setIntensity_clamped_witness:
  "intensity (fst (setIntensity 2 (fst (setIntensity 1.5 example_node)))) = intensity (fst (setIntensity 1.5 example_node))
   \<and> setIntensity 2 (fst (setIntensity 1.5 example_node)) = (fst (setIntensity 1.5 example_node), [Acquire, Release])
   \<and> emitted (snd (setIntensity 1.5 example_node) @ snd (setIntensity 2 (fst (setIntensity 1.5 example_node)))) = [IntensityChanged 1]
   \<and> intensity (fst (setIntensity 0.25 example_node)) = 0.25"
  using setIntensity_clamped [of "1.5" example_node 2] setIntensity_clamped [of "0.25" example_node 0]
  by (simp add: setIntensity_def intensity_def example_node_def)

text \<open>
  Claim C10. \<^verbatim>\<open>setName(n)\<close> with the node's current name does nothing: the node is unchanged
  (so \<^verbatim>\<open>ready\<close> is not cleared) and there is no effect at all (no load dispatched, no
  signal). \<^verbatim>\<open>reload()\<close> always clears \<^verbatim>\<open>ready\<close> and dispatches a load. \<^verbatim>\<open>setName\<close> with another
  name clears \<^verbatim>\<open>ready\<close>, stores the name between taking and releasing the lock, dispatches
  a load and then emits the name-changed signal, in this order.
\<close>

theorem setName_same_name_noop:
  "setName (name n) n = (n, [])
   \<and> reload n = (n\<lparr>m_ready := False\<rparr>, [Store F_ready, Invoke_initialize])
   \<and> (nm \<noteq> name n \<longrightarrow>
        setName nm n = (n\<lparr>m_ready := False, m_name := nm\<rparr>,
                        [Store F_ready, Acquire, Store F_name, Release, Invoke_initialize,
                         Emit (NameChanged nm)]))"
  by (simp add: setName_def reload_def name_def)

text \<open>
  Renaming the example node, whose name is \<^verbatim>\<open>test\<close>, to \<^verbatim>\<open>other\<close>.
\<close>

theorem setName_same_name_noop_witness:
  "''other'' \<noteq> name example_node
   \<and> setName ''other'' example_node =
       (example_node\<lparr>m_ready := False, m_name := ''other''\<rparr>,
        [Store F_ready, Acquire, Store F_name, Release, Invoke_initialize, Emit (NameChanged ''other'')])"
  using setName_same_name_noop [of example_node "''other''"]
  by (simp add: name_def example_node_def)

text \<open>
  Claim C8. \<^verbatim>\<open>copyBackRenderState(chain, copy)\<close>: when the chain is no longer in the original's
  render states, the call only writes a \<^verbatim>\<open>qDebug\<close> line, inside the lock, and the node is
  unchanged; when it is there (and the copy holds a state for it), the entry of this chain
  becomes the copy's state, stored inside the lock. In every call that returns, the entries
  of all other chains, the set of attached chains and every other member are unchanged.
\<close>

theorem copyBackRenderState_frame:
  "(m_renderStates n (chain_id ch) = None \<longrightarrow>
      copyBackRenderState ch c n = Some (n, [Acquire, Debug ChainDeleted, Release]))
   \<and> (m_renderStates n (chain_id ch) \<noteq> None \<and> m_renderStates c (chain_id ch) = Some s \<longrightarrow>
      copyBackRenderState ch c n =
        Some (n\<lparr>m_renderStates := (m_renderStates n)(chain_id ch \<mapsto> s)\<rparr>,
              [Acquire, Store F_renderStates, Release]))
   \<and> (copyBackRenderState ch c n = Some (n', es) \<longrightarrow>
      (\<forall>k. k \<noteq> chain_id ch \<longrightarrow> m_renderStates n' k = m_renderStates n k)
      \<and> dom (m_renderStates n') = dom (m_renderStates n)
      \<and> n'\<lparr>m_renderStates := m_renderStates n\<rparr> = n
      \<and> hd es = Acquire \<and> last es = Release)"
  by (auto simp: copyBackRenderState_def split: option.splits if_splits)

section \<open>The paint trace\<close>


lemma qvec_at_Some: "qvec_at xs i = Some x \<longleftrightarrow> i < length xs \<and> x = xs ! i"
  by (auto simp: qvec_at_def)

lemma qvec_at_None: "qvec_at xs i = None \<longleftrightarrow> \<not> i < length xs"
  by (auto simp: qvec_at_def)

lemma allocateRing_index: "m_textureIndex (fst (allocateRing n ch e rs)) = m_textureIndex rs"
  by (simp add: allocateRing_def)

lemma allocateRing_nonempty:
  "m_intermediate rs \<noteq> [] \<Longrightarrow> allocateRing n ch e rs = (rs, [])"
  by (simp add: allocateRing_def)














lemma paint_Some:
  assumes "m_ready n" and "m_renderStates n (chain_id ch) = Some rs0"
    and "paint ch inputs e n = Some (t, n', es)"
  shows "\<exists>rs alloc passes.
      allocateRing n ch e rs0 = (rs, alloc)
      \<and> (m_textureIndex rs0 + 1) mod (length (m_programs n) + 1) < length (m_intermediate rs)
      \<and> t = texture (m_intermediate rs ! ((m_textureIndex rs0 + 1) mod (length (m_programs n) + 1)))
      \<and> n' = n\<lparr>m_renderStates := (m_renderStates n)
                 (chain_id ch \<mapsto> rs\<lparr>m_textureIndex := (m_textureIndex rs0 + 1) mod (length (m_programs n) + 1)\<rparr>),
               m_realTime := wallTime e, m_realTimeLast := m_realTime n\<rparr>
      \<and> those (map (paintPass (n\<lparr>m_realTimeLast := m_realTime n, m_realTime := wallTime e\<rparr>) rs ch inputs e (wallTime e - m_realTime n) (beat e))
                    (rev [0..<length (m_programs n)])) = Some passes
      \<and> es = map GL (alloc @ [ClearColor, DisableDepthTest, DisableBlend,
                               Viewport (fst (chain_size ch)) (snd (chain_size ch))] @ concat passes)"
proof -
  obtain rs alloc where al: "allocateRing n ch e rs0 = (rs, alloc)"
    by (cases "allocateRing n ch e rs0")
  have ti: "m_textureIndex rs = m_textureIndex rs0"
    using allocateRing_index [of n ch e rs0] al by simp
  from assms al show ?thesis
    by (auto simp: paint_def Let_def ti qvec_at_Some split: Option.bind_splits)
qed



lemma advance_closed:
  "0 < k \<Longrightarrow> ((\<lambda>c. (c + 1) mod (P + 1)) ^^ k) ti = (ti + k) mod (P + 1)"
proof (induction k)
  case 0
  then show ?case by simp
next
  case (Suc k)
  show ?case
  proof (cases "k = 0")
    case True
    then show ?thesis by simp
  next
    case False
    with Suc.IH have "((\<lambda>c. (c + 1) mod (P + 1)) ^^ k) ti = (ti + k) mod (P + 1)" by simp
    then show ?thesis
      by (simp add: mod_Suc_eq)
  qed
qed

lemma paints_ring:
  assumes "m_ready n" and "m_renderStates n (chain_id ch) = Some rs0"
    and "paints ch calls n = Some (ts, n')"
  shows "\<exists>rs'. m_renderStates n' (chain_id ch) = Some rs' \<and> length ts = length calls
     \<and> (m_intermediate rs0 \<noteq> [] \<longrightarrow> m_intermediate rs' = m_intermediate rs0)
     \<and> m_textureIndex rs' = ((\<lambda>c. (c + 1) mod (length (m_programs n) + 1)) ^^ length calls) (m_textureIndex rs0)
     \<and> (\<forall>i<length calls. ts ! i =
           texture (m_intermediate rs' ! ((m_textureIndex rs0 + i + 1) mod (length (m_programs n) + 1))))"
  using assms
proof (induction calls arbitrary: n rs0 ts)
  case Nil
  then show ?case by simp
next
  case (Cons call calls)
  let ?P = "length (m_programs n)"
  let ?ti = "m_textureIndex rs0"
  obtain inputs e where call: "call = (inputs, e)" by (cases call)
  from Cons.prems(3) obtain t n1 es ts' where
    p: "paint ch inputs e n = Some (t, n1, es)" and
    r: "paints ch calls n1 = Some (ts', n')" and
    ts: "ts = t # ts'"
    by (auto simp: call split: option.splits)
  from paint_Some [OF Cons.prems(1,2) p] obtain rs alloc where
    al: "allocateRing n ch e rs0 = (rs, alloc)" and
    lt: "(?ti + 1) mod (?P + 1) < length (m_intermediate rs)" and
    t: "t = texture (m_intermediate rs ! ((?ti + 1) mod (?P + 1)))" and
    n1: "n1 = n\<lparr>m_renderStates := (m_renderStates n)
                 (chain_id ch \<mapsto> rs\<lparr>m_textureIndex := (?ti + 1) mod (?P + 1)\<rparr>),
               m_realTime := wallTime e, m_realTimeLast := m_realTime n\<rparr>"
    by blast
  let ?rs1 = "rs\<lparr>m_textureIndex := (?ti + 1) mod (?P + 1)\<rparr>"
  have ready1: "m_ready n1" and att1: "m_renderStates n1 (chain_id ch) = Some ?rs1"
    and progs1: "m_programs n1 = m_programs n"
    using Cons.prems(1) by (simp_all add: n1)
  have ne1: "m_intermediate ?rs1 \<noteq> []" using lt by auto
  have keep: "m_intermediate rs0 \<noteq> [] \<longrightarrow> m_intermediate rs = m_intermediate rs0"
    using al by (auto simp: allocateRing_def split: if_splits)
  from Cons.IH [OF ready1 att1 r] obtain rs' where
    a: "m_renderStates n' (chain_id ch) = Some rs'" and
    b: "length ts' = length calls" and
    c: "m_intermediate rs' = m_intermediate rs" and
    d: "m_textureIndex rs' = ((\<lambda>c. (c + 1) mod (?P + 1)) ^^ length calls) ((?ti + 1) mod (?P + 1))" and
    f: "\<forall>i<length calls. ts' ! i =
           texture (m_intermediate rs' ! (((?ti + 1) mod (?P + 1) + i + 1) mod (?P + 1)))"
    using ne1 by (auto simp: progs1)
  have idx: "\<forall>i<length (call # calls). ts ! i = texture (m_intermediate rs' ! ((?ti + i + 1) mod (?P + 1)))"
  proof (intro allI impI)
    fix i assume i: "i < length (call # calls)"
    show "ts ! i = texture (m_intermediate rs' ! ((?ti + i + 1) mod (?P + 1)))"
    proof (cases i)
      case 0
      then show ?thesis by (simp add: ts t c)
    next
      case (Suc i')
      with i have "i' < length calls" by simp
      with f have "ts' ! i' = texture (m_intermediate rs' ! (((?ti + 1) mod (?P + 1) + i' + 1) mod (?P + 1)))"
        by blast
      moreover have "((?ti + 1) mod (?P + 1) + i' + 1) mod (?P + 1) = (?ti + i + 1) mod (?P + 1)"
        unfolding Suc by (metis (no_types, opaque_lifting) Suc_eq_plus1 add.assoc add.commute mod_add_left_eq)
      ultimately show ?thesis by (simp add: ts Suc)
    qed
  qed
  have "m_textureIndex rs' = ((\<lambda>c. (c + 1) mod (?P + 1)) ^^ length (call # calls)) ?ti"
    using d funpow_swap1 [of "\<lambda>c. (c + 1) mod (?P + 1)" "length calls" ?ti] by simp
  with a b c keep idx show ?case
    by (auto simp: ts)
qed

text \<open>
  Claim C2, amended. For a ready node with \<open>P\<close> programs and the chain attached, a \<^verbatim>\<open>paint\<close>
  call that returns a texture returns the one of ring slot \<open>(ringIndex + 1) mod (P + 1)\<close> and
  leaves the cursor at that value, which is at most \<open>P\<close>. Over a run of such calls the
  \<open>i\<close>-th returned texture is the one of slot \<open>(ringIndex + i + 1) mod (P + 1)\<close>, so the
  returned textures repeat with period \<open>P + 1\<close>. A cursor within \<open>[0, P]\<close> stays there, and
  from a cursor within \<open>[0, P]\<close> it is back at its original value after \<open>P + 1\<close> calls.
\<close>

theorem paint_ring_cursor:
  assumes "m_ready n" and "m_renderStates n (chain_id ch) = Some rs0"
  shows "(paint ch inputs e n = Some (t, n1, es) \<longrightarrow>
            (\<exists>rs1. m_renderStates n1 (chain_id ch) = Some rs1
               \<and> t = texture (m_intermediate rs1 ! ((m_textureIndex rs0 + 1) mod (length (m_programs n) + 1)))
               \<and> m_textureIndex rs1 = (m_textureIndex rs0 + 1) mod (length (m_programs n) + 1)
               \<and> m_textureIndex rs1 \<le> length (m_programs n)))
       \<and> (paints ch calls n = Some (ts, n') \<longrightarrow>
            (\<exists>rs'. m_renderStates n' (chain_id ch) = Some rs'
               \<and> (\<forall>i<length calls. ts ! i =
                     texture (m_intermediate rs' ! ((m_textureIndex rs0 + i + 1) mod (length (m_programs n) + 1))))
               \<and> (\<forall>i. i + (length (m_programs n) + 1) < length calls \<longrightarrow>
                     ts ! (i + (length (m_programs n) + 1)) = ts ! i)
               \<and> (calls \<noteq> [] \<longrightarrow>
                     m_textureIndex rs' = (m_textureIndex rs0 + length calls) mod (length (m_programs n) + 1))
               \<and> (m_textureIndex rs0 \<le> length (m_programs n) \<longrightarrow> m_textureIndex rs' \<le> length (m_programs n))
               \<and> (m_textureIndex rs0 \<le> length (m_programs n) \<and> length calls = length (m_programs n) + 1 \<longrightarrow>
                     m_textureIndex rs' = m_textureIndex rs0)))"
proof (intro conjI impI)
  assume p: "paint ch inputs e n = Some (t, n1, es)"
  from paint_Some [OF assms p] show
    "\<exists>rs1. m_renderStates n1 (chain_id ch) = Some rs1
       \<and> t = texture (m_intermediate rs1 ! ((m_textureIndex rs0 + 1) mod (length (m_programs n) + 1)))
       \<and> m_textureIndex rs1 = (m_textureIndex rs0 + 1) mod (length (m_programs n) + 1)
       \<and> m_textureIndex rs1 \<le> length (m_programs n)"
    by auto
next
  let ?P = "length (m_programs n)"
  let ?ti = "m_textureIndex rs0"
  assume ps: "paints ch calls n = Some (ts, n')"
  from paints_ring [OF assms ps] obtain rs' where
    a: "m_renderStates n' (chain_id ch) = Some rs'" and
    b: "length ts = length calls" and
    d: "m_textureIndex rs' = ((\<lambda>c. (c + 1) mod (?P + 1)) ^^ length calls) ?ti" and
    f: "\<forall>i<length calls. ts ! i = texture (m_intermediate rs' ! ((?ti + i + 1) mod (?P + 1)))"
    by blast
  have per: "\<forall>i. i + (?P + 1) < length calls \<longrightarrow> ts ! (i + (?P + 1)) = ts ! i"
  proof (intro allI impI)
    fix i assume i: "i + (?P + 1) < length calls"
    then have "ts ! (i + (?P + 1)) = texture (m_intermediate rs' ! ((?ti + (i + (?P + 1)) + 1) mod (?P + 1)))"
      using f by blast
    moreover have "(?ti + (i + (?P + 1)) + 1) mod (?P + 1) = (?ti + i + 1) mod (?P + 1)"
      by (metis (no_types, opaque_lifting) add.assoc add.commute mod_add_self2)
    moreover have "ts ! i = texture (m_intermediate rs' ! ((?ti + i + 1) mod (?P + 1)))"
      using f i by simp
    ultimately show "ts ! (i + (?P + 1)) = ts ! i" by simp
  qed
  have cl: "calls \<noteq> [] \<longrightarrow> m_textureIndex rs' = (?ti + length calls) mod (?P + 1)"
    using d advance_closed [of "length calls" ?P ?ti] by simp
  have bound: "?ti \<le> ?P \<longrightarrow> m_textureIndex rs' \<le> ?P"
  proof (cases "calls = []")
    case True
    then show ?thesis using d by simp
  next
    case False
    with cl have "m_textureIndex rs' < ?P + 1" by simp
    then show ?thesis by simp
  qed
  have ret: "?ti \<le> ?P \<and> length calls = ?P + 1 \<longrightarrow> m_textureIndex rs' = ?ti"
  proof
    assume h: "?ti \<le> ?P \<and> length calls = ?P + 1"
    then have "calls \<noteq> []" by auto
    with cl h have "m_textureIndex rs' = (?ti + (?P + 1)) mod (?P + 1)" by simp
    also have "\<dots> = ?ti mod (?P + 1)" by (rule mod_add_self2)
    also have "\<dots> = ?ti" using h by simp
    finally show "m_textureIndex rs' = ?ti" .
  qed
  from a f per cl bound ret show
    "\<exists>rs'. m_renderStates n' (chain_id ch) = Some rs'
       \<and> (\<forall>i<length calls. ts ! i =
             texture (m_intermediate rs' ! ((m_textureIndex rs0 + i + 1) mod (length (m_programs n) + 1))))
       \<and> (\<forall>i. i + (length (m_programs n) + 1) < length calls \<longrightarrow>
             ts ! (i + (length (m_programs n) + 1)) = ts ! i)
       \<and> (calls \<noteq> [] \<longrightarrow>
             m_textureIndex rs' = (m_textureIndex rs0 + length calls) mod (length (m_programs n) + 1))
       \<and> (m_textureIndex rs0 \<le> length (m_programs n) \<longrightarrow> m_textureIndex rs' \<le> length (m_programs n))
       \<and> (m_textureIndex rs0 \<le> length (m_programs n) \<and> length calls = length (m_programs n) + 1 \<longrightarrow>
             m_textureIndex rs' = m_textureIndex rs0)"
    by blast
qed

text \<open>
  Claim C6. For every chain and every input vector, \<^verbatim>\<open>paint\<close> on a node that is not ready,
  or for a chain that has no entry in the node's render states, writes one \<^verbatim>\<open>qDebug\<close> line
  and returns the texture 0; the node after the call is the node before it (no render
  state is created or changed) and no OpenGL call is issued.
\<close>

theorem paint_soft_failure:
  "(\<not> m_ready n \<longrightarrow> paint ch inputs e n = Some (0, n, [Debug NotReady]))
   \<and> (m_ready n \<and> m_renderStates n (chain_id ch) = None \<longrightarrow>
        paint ch inputs e n = Some (0, n, [Debug (DoesNotHaveChain (chain_id ch))]))"
  by (simp add: paint_def)

lemma rev_upt_nth: "i < P \<Longrightarrow> rev [0..<P] ! i = P - 1 - i"
  by (simp add: rev_nth)




lemma is_Some: "(case x of None \<Rightarrow> False | Some _ \<Rightarrow> True) \<Longrightarrow> x = Some (the x)"
  by (cases x) simp_all

lemma frame1: "paint example_chain [7] example_env example_node = Some example_frame1"
  unfolding example_frame1_def by (rule is_Some) code_simp



lemma frame1_attached: "m_renderStates (fst (snd example_frame1)) (chain_id example_chain) = Some (the (m_renderStates (fst (snd example_frame1)) (chain_id example_chain)))"
    unfolding example_frame1_def by (rule is_Some) code_simp



lemma frame1_cursor: "m_textureIndex (the (m_renderStates (fst (snd example_frame1)) (chain_id example_chain))) = 1"
    unfolding example_frame1_def by code_simp




section \<open>The loader\<close>

text \<open>
  The line loop keeps three facts: the pass list is not empty, every pass begins with a
  line marker, and only \<^verbatim>\<open>qDebug\<close> lines are written. With them \<^verbatim>\<open>loadProgram\<close> on an unready
  node has four outcomes (\<open>loadProgram_outcome\<close>): no header, no effect file, a pass that
  does not build, or success.
\<close>

lemma emitted_append: "emitted (xs @ ys) = emitted xs @ emitted ys"
  by (induction xs rule: emitted.induct) auto

lemma stores_append: "stores (xs @ ys) = stores xs @ stores ys"
  by (induction xs rule: stores.induct) auto

lemma emitted_debug: "list_all is_debug xs \<Longrightarrow> emitted xs = []"
  by (induction xs rule: emitted.induct) (auto simp: is_debug_def)

lemma stores_debug: "list_all is_debug xs \<Longrightarrow> stores xs = []"
  by (induction xs rule: stores.induct) (auto simp: is_debug_def)

lemma is_debug_simps: "is_debug (Debug m)" "\<not> is_debug (Emit sg)" "\<not> is_debug Acquire" "\<not> is_debug Release" "\<not> is_debug (Store f)"
  by (simp_all add: is_debug_def)

lemma is_digit_digit: "d < 10 \<Longrightarrow> is_digit (digit d)"
  by (simp add: is_digit_def digit_def)

lemma number_digits: "number k \<noteq> [] \<and> list_all is_digit (number k)"
proof (induction k rule: number.induct)
  case (1 k)
  show ?case
  proof (cases "k < 10")
    case True
    then show ?thesis by (simp add: is_digit_digit)
  next
    case False
    with 1 have "number (k div 10) \<noteq> [] \<and> list_all is_digit (number (k div 10))" by simp
    moreover have "is_digit (digit (k mod 10))" by (rule is_digit_digit) simp
    ultimately show ?thesis using False by (subst number.simps, simp)+
  qed
qed

lemma is_line_marker_line_marker: "is_line_marker (line_marker k)"
  using number_digits [of k] by (simp add: is_line_marker_def line_marker_def)

lemma append_back_marked:
  assumes "passes \<noteq> []" "list_all marked passes"
  shows "\<exists>passes'. append_back passes x = Some passes' \<and> passes' \<noteq> [] \<and> list_all marked passes'"
proof -
  from assms(1) obtain ps p where sp: "passes = ps @ [p]"
    by (metis rev_exhaust)
  with assms(2) have "marked p" "list_all marked ps" by auto
  then show ?thesis
    by (cases p) (auto simp: append_back_def sp marked_def)
qed

lemma parseLines_total:
  "passes \<noteq> [] \<Longrightarrow> list_all marked passes \<Longrightarrow> list_all is_debug dbg \<Longrightarrow>
   \<exists>passes' props' dbg'. parseLines k ls (passes, props, dbg) = Some (passes', props', dbg')
      \<and> passes' \<noteq> [] \<and> list_all marked passes' \<and> list_all is_debug dbg'"
proof (induction ls arbitrary: k passes props dbg)
  case Nil
  then show ?case by simp
next
  case (Cons l ls)
  show ?case
  proof (cases "match_property l")
    case (Some nv)
    obtain nm v where nv: "nv = (nm, v)" by (cases nv)
    from append_back_marked [OF Cons.prems(1,2)] obtain passes' where
      ab: "append_back passes (line_marker k) = Some passes'" "passes' \<noteq> []" "list_all marked passes'"
      by blast
    have "list_all is_debug (dbg @ [Debug (SettingProperty nm v)])"
      using Cons.prems(3) by (simp add: is_debug_simps)
    from Cons.IH [OF ab(2,3) this] show ?thesis
      by (simp add: Some nv ab(1))
  next
    case None
    show ?thesis
    proof (cases "match_buffershader l")
      case True
      have "marked [line_marker k]"
        by (simp add: marked_def is_line_marker_line_marker)
      then have "passes @ [[line_marker k]] \<noteq> []" "list_all marked (passes @ [[line_marker k]])"
        using Cons.prems(2) by simp_all
      from Cons.IH [OF this Cons.prems(3)] show ?thesis
        by (simp add: None True)
    next
      case False
      from append_back_marked [OF Cons.prems(1,2)] obtain passes' where
        ab: "append_back passes l = Some passes'" "passes' \<noteq> []" "list_all marked passes'"
        by blast
      from Cons.IH [OF ab(2,3) Cons.prems(3)] show ?thesis
        by (simp add: None False ab(1))
    qed
  qed
qed

lemma line_marker_0: "line_marker 0 = ''#line 0''"
  by code_simp

lemma marked_initial: "marked [''#line 0'']"
  using is_line_marker_line_marker [of 0] by (simp add: marked_def line_marker_0)

lemma parseSource_total:
  "\<exists>passes props dbg. parseSource txt = Some (passes, props, dbg)
      \<and> passes \<noteq> [] \<and> list_all marked passes \<and> list_all is_debug dbg"
  unfolding parseSource_def
  by (rule parseLines_total) (simp_all add: marked_initial)

lemma compilePasses_Inr:
  "compilePasses e h passes acc = Inr programs \<Longrightarrow>
     programs = acc @ map (\<lambda>p. Program vertexString (fragment_of h p)) passes
     \<and> list_all (builds e h) passes"
proof (induction e h passes acc rule: compilePasses.induct)
  case (1 e h acc)
  then show ?case by simp
next
  case (2 e h pass rest acc)
  from "2.prems" have b: "builds e h pass"
    by (auto simp: builds_def split: if_splits)
  with "2.prems" have "compilePasses e h rest (acc @ [Program vertexString (fragment_of h pass)]) = Inr programs"
    by (simp add: builds_def)
  with "2.IH" b show ?case
    by (simp add: builds_def)
qed

lemma compilePasses_Inl:
  "compilePasses e h passes acc = Inl reason \<Longrightarrow>
     \<not> list_all (builds e h) passes
     \<and> reason \<in> {''Could not compile vertex shader'', ''Could not compile fragment shader'',
                  ''Could not link shader program''}"
proof (induction e h passes acc rule: compilePasses.induct)
  case (1 e h acc)
  then show ?case by simp
next
  case (2 e h pass rest acc)
  show ?case
  proof (cases "builds e h pass")
    case True
    with "2.prems" have "compilePasses e h rest (acc @ [Program vertexString (fragment_of h pass)]) = Inl reason"
      by (simp add: builds_def)
    with "2.IH" True show ?thesis
      by (simp add: builds_def)
  next
    case False
    with "2.prems" show ?thesis
      by (auto simp: builds_def split: if_splits)
  qed
qed


lemma load_header_missing:
  "\<not> m_ready n \<Longrightarrow> readAll e header_path = None \<Longrightarrow>
     loadProgram e nm n = Some (False, n, [Emit (Fatal (could_not_open ''../resources/effect_header.glsl''))])"
  by (simp add: loadProgram_def)

lemma load_effect_missing:
  "\<not> m_ready n \<Longrightarrow> readAll e header_path = Some h \<Longrightarrow>
     \<not> isFile e (effect_path nm) \<or> readAll e (effect_path nm) = None \<Longrightarrow>
     loadProgram e nm n = Some (False, n, [Emit (Fatal (could_not_open (effect_path nm)))])"
  by (auto simp: loadProgram_def)

lemma load_built:
  assumes "\<not> m_ready n" "readAll e header_path = Some h" "isFile e (effect_path nm)"
    "readAll e (effect_path nm) = Some txt" "parseSource txt = Some (passes, props, dbg)"
    "list_all (builds e h) passes"
  shows "loadProgram e nm n =
             Some (True, n\<lparr>m_programs := map (\<lambda>p. Program vertexString (fragment_of h p)) passes\<rparr>,
                   dbg @ [Acquire, Store F_programs, Release])"
proof -
  have ne: "passes \<noteq> []"
    using parseSource_total [of "txt"] assms(5) by auto
  show ?thesis
  proof (cases "compilePasses e h passes []")
    case (Inl reason)
    with compilePasses_Inl [of e h passes "[]" reason] assms(6) show ?thesis by simp
  next
    case (Inr programs)
    with compilePasses_Inr [of e h passes "[]" programs]
    have "programs = map (\<lambda>p. Program vertexString (fragment_of h p)) passes" by simp
    with assms Inr ne show ?thesis
      by (simp add: loadProgram_def)
  qed
qed

lemma load_not_built:
  assumes "\<not> m_ready n" "readAll e header_path = Some h" "isFile e (effect_path nm)"
    "readAll e (effect_path nm) = Some txt" "parseSource txt = Some (passes, props, dbg)"
    "\<not> list_all (builds e h) passes"
  shows "\<exists>reason. reason \<in> {''Could not compile vertex shader'', ''Could not compile fragment shader'',
                               ''Could not link shader program''}
             \<and> compilePasses e h passes [] = Inl reason
             \<and> loadProgram e nm n = Some (False, n, dbg @ [Emit (Fatal reason)])"
proof (cases "compilePasses e h passes []")
  case (Inl reason)
  with compilePasses_Inl [of e h passes "[]" reason]
  have "reason \<in> {''Could not compile vertex shader'', ''Could not compile fragment shader'',
                               ''Could not link shader program''}" by simp
  moreover from assms Inl have "loadProgram e nm n = Some (False, n, dbg @ [Emit (Fatal reason)])"
    by (simp add: loadProgram_def)
  ultimately show ?thesis using Inl by blast
next
  case (Inr programs)
  with compilePasses_Inr [of e h passes "[]" programs] assms(6) show ?thesis by simp
qed

lemma loadProgram_outcome:
  assumes "\<not> m_ready n"
  shows "(readAll e header_path = None
          \<and> loadProgram e nm n =
              Some (False, n, [Emit (Fatal (could_not_open ''../resources/effect_header.glsl''))]))
       \<or> (\<exists>h. readAll e header_path = Some h
             \<and> (\<not> isFile e (effect_path nm) \<or> readAll e (effect_path nm) = None)
             \<and> loadProgram e nm n = Some (False, n, [Emit (Fatal (could_not_open (effect_path nm)))]))
       \<or> (\<exists>h src passes props dbg reason.
             readAll e header_path = Some h \<and> isFile e (effect_path nm)
             \<and> readAll e (effect_path nm) = Some src \<and> parseSource src = Some (passes, props, dbg)
             \<and> passes \<noteq> [] \<and> list_all is_debug dbg \<and> \<not> list_all (builds e h) passes
             \<and> reason \<in> {''Could not compile vertex shader'', ''Could not compile fragment shader'',
                           ''Could not link shader program''}
             \<and> compilePasses e h passes [] = Inl reason
             \<and> loadProgram e nm n = Some (False, n, dbg @ [Emit (Fatal reason)]))
       \<or> (\<exists>h src passes props dbg.
             readAll e header_path = Some h \<and> isFile e (effect_path nm)
             \<and> readAll e (effect_path nm) = Some src \<and> parseSource src = Some (passes, props, dbg)
             \<and> passes \<noteq> [] \<and> list_all is_debug dbg \<and> list_all (builds e h) passes
             \<and> loadProgram e nm n =
                 Some (True, n\<lparr>m_programs := map (\<lambda>p. Program vertexString (fragment_of h p)) passes\<rparr>,
                       dbg @ [Acquire, Store F_programs, Release]))"
proof (cases "readAll e header_path")
  case None
  with load_header_missing [OF assms] show ?thesis by blast
next
  case (Some h)
  show ?thesis
  proof (cases "\<not> isFile e (effect_path nm) \<or> readAll e (effect_path nm) = None")
    case True
    with load_effect_missing [OF assms Some] Some show ?thesis by blast
  next
    case False
    then obtain src where f: "isFile e (effect_path nm)" and src: "readAll e (effect_path nm) = Some src"
      by auto
    from parseSource_total [of src] obtain passes props dbg where
      ps: "parseSource src = Some (passes, props, dbg)" and ne: "passes \<noteq> []"
      and dbg: "list_all is_debug dbg"
      by blast
    show ?thesis
    proof (cases "list_all (builds e h) passes")
      case True
      from load_built [OF assms Some f src ps True] Some f src ps ne dbg True
      show ?thesis by blast
    next
      case False
      from load_not_built [OF assms Some f src ps False] Some f src ps ne dbg False
      show ?thesis by blast
    qed
  qed
qed









lemma emitted_tail: "list_all is_debug dbg \<Longrightarrow> emitted (dbg @ es) = emitted es"
  by (simp add: emitted_append emitted_debug)

lemma stores_tail: "list_all is_debug dbg \<Longrightarrow> stores (dbg @ es) = stores es"
  by (simp add: stores_append stores_debug)


lemma qstring_less_irrefl: "\<not> qstring_less a a"
  by (induction a) simp_all

lemma qstring_less_total: "\<not> qstring_less a b \<Longrightarrow> \<not> qstring_less b a \<Longrightarrow> a = b"
proof (induction a b rule: qstring_less.induct)
  case (4 x xs y ys)
  then have "(of_char x :: nat) = of_char y"
    by (auto split: if_splits)
  with 4 show ?case by (auto split: if_splits)
qed simp_all

lemma map_of_qmap_insert_other:
  "k' \<noteq> k \<Longrightarrow> map_of (qmap_insert k v m) k' = map_of m k'"
proof (induction m)
  case Nil
  then show ?case by simp
next
  case (Cons kv m)
  obtain k0 v0 where kv: "kv = (k0, v0)" by (cases kv)
  show ?case
    using Cons qstring_less_total [of k k0] by (auto simp: kv)
qed

lemma map_of_qmap_insert_same: "map_of (qmap_insert k v m) k = Some v"
proof (induction m)
  case Nil
  then show ?case by simp
next
  case (Cons kv m)
  obtain k0 v0 where kv: "kv = (k0, v0)" by (cases kv)
  show ?case
    using Cons qstring_less_irrefl [of k] by (auto simp: kv)
qed

lemma parseLines_props:
  "parseLines k ls (passes, props, dbg) = Some (passes', props', dbg') \<Longrightarrow>
   (\<forall>l\<in>set ls. \<forall>v. match_property l \<noteq> Some (key, v)) \<Longrightarrow>
   map_of props' key = map_of props key"
proof (induction ls arbitrary: k passes props dbg)
  case Nil
  then show ?case by simp
next
  case (Cons l ls)
  from Cons.prems(2) have rest: "\<forall>l\<in>set ls. \<forall>v. match_property l \<noteq> Some (key, v)" by simp
  show ?case
  proof (cases "match_property l")
    case (Some nv)
    obtain nm v where nv: "nv = (nm, v)" by (cases nv)
    with Some Cons.prems(2) have ne: "key \<noteq> nm" by auto
    from Cons.prems(1) obtain ps where
      "parseLines (k + 1) ls (ps, qmap_insert nm v props, dbg @ [Debug (SettingProperty nm v)])
         = Some (passes', props', dbg')"
      by (auto simp: Some nv split: option.splits)
    from Cons.IH [OF this rest] ne show ?thesis
      by (simp add: map_of_qmap_insert_other)
  next
    case None
    from Cons.prems(1) obtain ps where
      "parseLines (k + 1) ls (ps, props, dbg) = Some (passes', props', dbg')"
      by (auto simp: None split: option.splits if_splits)
    from Cons.IH [OF this rest] show ?thesis .
  qed
qed

lemma map_of_qmap_insert: "map_of (qmap_insert k v m) = (map_of m)(k \<mapsto> v)"
  by (rule ext) (simp add: map_of_qmap_insert_other map_of_qmap_insert_same)

lemma parseLines_map:
  "parseLines k ls (passes, props, dbg) = Some (passes', props', dbg') \<Longrightarrow>
   map_of props' = map_of (rev (List.map_filter match_property ls) @ props)"
proof (induction ls arbitrary: k passes props dbg)
  case Nil
  then show ?case by (simp add: List.map_filter_simps)
next
  case (Cons l ls)
  show ?case
  proof (cases "match_property l")
    case (Some nv)
    obtain nm v where nv: "nv = (nm, v)" by (cases nv)
    from Cons.prems(1) obtain ps where
      "parseLines (k + 1) ls (ps, qmap_insert nm v props, dbg @ [Debug (SettingProperty nm v)])
         = Some (passes', props', dbg')"
      by (auto simp: Some nv split: option.splits)
    from Cons.IH [OF this]
    have "map_of props' = map_of (rev (List.map_filter match_property ls) @ qmap_insert nm v props)" .
    also have "\<dots> = map_of (rev (List.map_filter match_property ls) @ (nm, v) # props)"
      by (simp add: map_of_append map_of_qmap_insert)
    finally show ?thesis
      by (simp add: List.map_filter_simps Some nv)
  next
    case None
    from Cons.prems(1) obtain ps where
      "parseLines (k + 1) ls (ps, props, dbg) = Some (passes', props', dbg')"
      by (auto simp: None split: option.splits if_splits)
    from Cons.IH [OF this] show ?thesis
      by (simp add: List.map_filter_simps None)
  qed
qed

lemma parseLines_dbg:
  "parseLines k ls (passes, props, dbg) = Some (passes', props', dbg') \<Longrightarrow>
   dbg' = dbg @ map (\<lambda>(nm, v). Debug (SettingProperty nm v)) (List.map_filter match_property ls)"
proof (induction ls arbitrary: k passes props dbg)
  case Nil
  then show ?case by (simp add: List.map_filter_simps)
next
  case (Cons l ls)
  show ?case
  proof (cases "match_property l")
    case (Some nv)
    obtain nm v where nv: "nv = (nm, v)" by (cases nv)
    from Cons.prems(1) obtain ps where
      "parseLines (k + 1) ls (ps, qmap_insert nm v props, dbg @ [Debug (SettingProperty nm v)])
         = Some (passes', props', dbg')"
      by (auto simp: Some nv split: option.splits)
    from Cons.IH [OF this] show ?thesis
      by (simp add: List.map_filter_simps Some nv)
  next
    case None
    from Cons.prems(1) obtain ps where
      "parseLines (k + 1) ls (ps, props, dbg) = Some (passes', props', dbg')"
      by (auto simp: None split: option.splits if_splits)
    from Cons.IH [OF this] show ?thesis
      by (simp add: List.map_filter_simps None)
  qed
qed

lemma loadProgram_unready: "loadProgram e nm n = Some r \<Longrightarrow> \<not> m_ready n"
  by (auto simp: loadProgram_def split: if_splits)

lemma no_shaders_distinct:
  "no_shaders_found nm \<noteq> could_not_open p"
  "no_shaders_found nm \<noteq> ''Could not compile vertex shader''"
  "no_shaders_found nm \<noteq> ''Could not compile fragment shader''"
  "no_shaders_found nm \<noteq> ''Could not link shader program''"
  by (simp_all add: no_shaders_found_def could_not_open_def)

text \<open>
  Claim C9. For every source text the line loop returns (it never takes \<^verbatim>\<open>back()\<close> of an
  empty list) with at least one pass, and every pass begins with a \<^verbatim>\<open>#line\<close> marker. So the
  program list built from the passes is never empty, and whatever \<^verbatim>\<open>loadProgram\<close> returns,
  it has not emitted the fatal signal \<^verbatim>\<open>No shaders found\<close>; a successful load leaves a program
  list that is not empty.
\<close>

theorem parser_always_has_a_pass:
  "(\<exists>passes props dbg. parseSource src = Some (passes, props, dbg) \<and> passes \<noteq> []
       \<and> list_all marked passes
       \<and> (\<forall>programs. compilePasses e h passes [] = Inr programs \<longrightarrow> programs \<noteq> []))
   \<and> (loadProgram e nm n = Some (res, n', es) \<longrightarrow>
         Fatal (no_shaders_found nm) \<notin> set (emitted es) \<and> (res \<longrightarrow> m_programs n' \<noteq> []))"
proof (intro conjI impI)
  from parseSource_total [of src] obtain passes props dbg where
    ps: "parseSource src = Some (passes, props, dbg)" and ne: "passes \<noteq> []"
    and mk: "list_all marked passes"
    by blast
  have "\<forall>programs. compilePasses e h passes [] = Inr programs \<longrightarrow> programs \<noteq> []"
    using compilePasses_Inr [of e h passes "[]"] ne by auto
  with ps ne mk show "\<exists>passes props dbg. parseSource src = Some (passes, props, dbg) \<and> passes \<noteq> []
       \<and> list_all marked passes
       \<and> (\<forall>programs. compilePasses e h passes [] = Inr programs \<longrightarrow> programs \<noteq> [])"
    by blast
next
  assume l: "loadProgram e nm n = Some (res, n', es)"
  then have u: "\<not> m_ready n" by (rule loadProgram_unready)
  from loadProgram_outcome [OF u, of e nm] l
  show "Fatal (no_shaders_found nm) \<notin> set (emitted es)"
    by (elim disjE exE conjE) (auto simp: emitted_tail no_shaders_distinct)
next
  assume l: "loadProgram e nm n = Some (res, n', es)" and res
  from l have u: "\<not> m_ready n" by (rule loadProgram_unready)
  from loadProgram_outcome [OF u, of e nm] l \<open>res\<close>
  show "m_programs n' \<noteq> []"
    by (elim disjE exE conjE) auto
qed

lemma line_marker_2: "line_marker 2 = ''#line 2''"
  by code_simp

lemma example_source_parsed:
  "parseSource example_source =
     Some ([[''#line 0'', ''#line 0'', ''LINE_A''], [''#line 2'', ''LINE_B'']],
           [(''foo'', ''3''), (''inputCount'', ''1'')],
           [Debug (SettingProperty ''foo'' ''3'')])"
  by code_simp

lemma parse_inputCount_2:
  "parseSource property_source =
     Some ([[''#line 0'', ''#line 0'']], [(''inputCount'', ''2'')],
           [Debug (SettingProperty ''inputCount'' ''2'')])"
  by code_simp


lemma paths_distinct: "header_path \<noteq> effect_path ''purple''"
  by (simp add: header_path_def effect_path_def)

lemma unready: "\<not> m_ready unready_node"
  by (simp add: unready_node_def)


lemma load_working:
  "loadProgram working_env ''purple'' unready_node =
     Some (True, loaded_node,
           [Debug (SettingProperty ''inputCount'' ''2''), Acquire, Store F_programs, Release])"
  using paths_distinct
  by (simp add: loadProgram_def unready working_env_def parse_inputCount_2 loaded_node_def)


text \<open>
  Claim C4 as stated fails: the source of the effect \<^verbatim>\<open>purple\<close> sets \<^verbatim>\<open>inputCount\<close> to 2 and
  the load succeeds, but the node's \<^verbatim>\<open>inputCount\<close> is still 1, whereas applying the parsed map
  through a registry that knows \<^verbatim>\<open>inputCount\<close> would make it 2.
\<close>

theorem properties_not_applied_counterexample:
  "loadProgram working_env ''purple'' unready_node =
     Some (True, loaded_node,
           [Debug (SettingProperty ''inputCount'' ''2''), Acquire, Store F_programs, Release])
   \<and> parseSource property_source =
       Some ([[''#line 0'', ''#line 0'']], [(''inputCount'', ''2'')],
             [Debug (SettingProperty ''inputCount'' ''2'')])
   \<and> m_inputCount loaded_node = 1
   \<and> m_inputCount (applyProperties example_registry [(''inputCount'', ''2'')] loaded_node) = 2"
proof -
  have "m_inputCount loaded_node = 1"
    by (simp add: loaded_node_def unready_node_def example_node_def)
  moreover have "decimal 0 ''2'' = Some 2" by code_simp
  then have "m_inputCount (applyProperties example_registry [(''inputCount'', ''2'')] loaded_node) = 2"
    by (simp add: example_registry_def setInputCount_def)
  ultimately show ?thesis using load_working parse_inputCount_2 by simp
qed

text \<open>
  Claim C5 as stated fails: the property map of that source also holds the default
  \<^verbatim>\<open>inputCount\<close>, so it is not \<open>{foo: "3"}\<close>, and the two bodies hold line markers, so they
  are not \<^verbatim>\<open>LINE_A\<close> and \<^verbatim>\<open>LINE_B\<close> alone.
\<close>

theorem parse_spec_example_counterexample:
  "parseSource example_source =
     Some ([[''#line 0'', ''#line 0'', ''LINE_A''], [''#line 2'', ''LINE_B'']],
           [(''foo'', ''3''), (''inputCount'', ''1'')],
           [Debug (SettingProperty ''foo'' ''3'')])
   \<and> map_of [(''foo'', ''3''), (''inputCount'', ''1'')] \<noteq> map_of [(''foo'', ''3'')]
   \<and> [[''#line 0'', ''#line 0'', ''LINE_A''], [''#line 2'', ''LINE_B'']] \<noteq> [[''LINE_A''], [''LINE_B'']]
   \<and> map (join [newline]) [[''#line 0'', ''#line 0'', ''LINE_A''], [''#line 2'', ''LINE_B'']]
        \<noteq> [''LINE_A'', ''LINE_B'']"
proof -
  have "map_of [(''foo'', ''3''), (''inputCount'', ''1'')] ''inputCount''
          \<noteq> map_of [(''foo'', ''3'')] ''inputCount''"
    by simp
  then have "map_of [(''foo'', ''3''), (''inputCount'', ''1'')] \<noteq> map_of [(''foo'', ''3'')]"
    by metis
  then show ?thesis using example_source_parsed by simp
qed

text \<open>
  Claim C5, amended. The source \<^verbatim>\<open>#property foo 3\<close>, \<^verbatim>\<open>LINE_A\<close>, \<^verbatim>\<open>#buffershader\<close>, \<^verbatim>\<open>LINE_B\<close> (one
  per line) gives the property map \<open>{foo: "3", inputCount: "1"}\<close> and exactly two passes,
  \<^verbatim>\<open>#line 0\<close>, \<^verbatim>\<open>#line 0\<close>, \<^verbatim>\<open>LINE_A\<close> and \<^verbatim>\<open>#line 2\<close>, \<^verbatim>\<open>LINE_B\<close>: the two directive lines are not in
  the bodies, a line marker stands in their place, and without the markers the bodies are
  \<^verbatim>\<open>LINE_A\<close> and \<^verbatim>\<open>LINE_B\<close>.
\<close>

theorem parse_spec_example:
  "parseSource example_source =
     Some ([[''#line 0'', ''#line 0'', ''LINE_A''], [''#line 2'', ''LINE_B'']],
           [(''foo'', ''3''), (''inputCount'', ''1'')],
           [Debug (SettingProperty ''foo'' ''3'')])
   \<and> readLines example_source = [''#property foo 3'', ''LINE_A'', ''#buffershader'', ''LINE_B'']
   \<and> filter (\<lambda>l. \<not> is_line_marker l) [''#line 0'', ''#line 0'', ''LINE_A''] = [''LINE_A'']
   \<and> filter (\<lambda>l. \<not> is_line_marker l) [''#line 2'', ''LINE_B''] = [''LINE_B'']"
proof -
  have "readLines example_source = [''#property foo 3'', ''LINE_A'', ''#buffershader'', ''LINE_B'']"
    by code_simp
  moreover have "filter (\<lambda>l. \<not> is_line_marker l) [''#line 0'', ''#line 0'', ''LINE_A''] = [''LINE_A'']"
    by code_simp
  moreover have "filter (\<lambda>l. \<not> is_line_marker l) [''#line 2'', ''LINE_B''] = [''LINE_B'']"
    by code_simp
  ultimately show ?thesis using example_source_parsed by simp
qed

lemma loadProgram_success:
  assumes "loadProgram e nm n = Some (True, n', es)"
  shows "\<exists>h src passes props dbg.
           readAll e header_path = Some h \<and> isFile e (effect_path nm)
           \<and> readAll e (effect_path nm) = Some src \<and> parseSource src = Some (passes, props, dbg)
           \<and> list_all is_debug dbg \<and> list_all (builds e h) passes
           \<and> n' = n\<lparr>m_programs := map (\<lambda>p. Program vertexString (fragment_of h p)) passes\<rparr>
           \<and> es = dbg @ [Acquire, Store F_programs, Release]"
proof -
  from assms have u: "\<not> m_ready n" by (rule loadProgram_unready)
  from loadProgram_outcome [OF u, of e nm] assms show ?thesis
    by (elim disjE exE conjE) auto
qed

lemma parseSource_dbg:
  "parseSource src = Some (passes, props, dbg) \<Longrightarrow>
     dbg = map (\<lambda>(k, v). Debug (SettingProperty k v)) (List.map_filter match_property (readLines src))"
  unfolding parseSource_def by (drule parseLines_dbg) simp

lemma parseSource_map:
  "parseSource src = Some (passes, props, dbg) \<Longrightarrow>
     map_of props =
       map_of (rev (List.map_filter match_property (readLines src)) @ [(''inputCount'', ''1'')])"
  unfolding parseSource_def by (rule parseLines_map)

lemma parseSource_default:
  "parseSource src = Some (passes, props, dbg) \<Longrightarrow>
   (\<forall>l\<in>set (readLines src). \<forall>v. match_property l \<noteq> Some (''inputCount'', v)) \<Longrightarrow>
   map_of props ''inputCount'' = Some ''1''"
  unfolding parseSource_def by (drule parseLines_props [where key = "''inputCount''"]) simp_all

text \<open>
  Claim C4, amended. A successful load changes the program list only: \<^verbatim>\<open>inputCount\<close> and
  every other member of the node are as before, and the program list is the only member
  stored to. Each \<^verbatim>\<open>#property\<close> line of the source is written to \<^verbatim>\<open>qDebug\<close>, in the order of the
  lines, and entered into the property map: the map holds for every name the value of the
  last \<^verbatim>\<open>#property\<close> line with that name, and \<^verbatim>\<open>inputCount\<close> = 1 when no line of the source sets
  it, and nothing else; the map is then dropped. Whether the load succeeds depends on the
  files and on the compiler and linker only, so no property, known or unknown, valid or
  not, aborts it.
\<close>

theorem loadProgram_ignores_properties:
  "(loadProgram e nm n = Some (True, n', es) \<longrightarrow>
      n' = n\<lparr>m_programs := m_programs n'\<rparr> \<and> m_inputCount n' = m_inputCount n
      \<and> stores es = [F_programs]
      \<and> (\<exists>src passes props dbg. readAll e (effect_path nm) = Some src
            \<and> parseSource src = Some (passes, props, dbg)
            \<and> map_of props =
                map_of (rev (List.map_filter match_property (readLines src)) @ [(''inputCount'', ''1'')])
            \<and> dbg = map (\<lambda>(k, v). Debug (SettingProperty k v))
                       (List.map_filter match_property (readLines src))
            \<and> es = dbg @ [Acquire, Store F_programs, Release]))
   \<and> (\<exists>passes props dbg. parseSource src = Some (passes, props, dbg)
        \<and> map_of props =
            map_of (rev (List.map_filter match_property (readLines src)) @ [(''inputCount'', ''1'')])
        \<and> dbg = map (\<lambda>(k, v). Debug (SettingProperty k v))
                   (List.map_filter match_property (readLines src))
        \<and> ((\<forall>l\<in>set (readLines src). \<forall>v. match_property l \<noteq> Some (''inputCount'', v)) \<longrightarrow>
              map_of props ''inputCount'' = Some ''1''))
   \<and> (\<not> m_ready n \<longrightarrow>
        (map_option fst (loadProgram e nm n) = Some True \<longleftrightarrow>
           (\<exists>h src passes props dbg. readAll e header_path = Some h \<and> isFile e (effect_path nm)
              \<and> readAll e (effect_path nm) = Some src
              \<and> parseSource src = Some (passes, props, dbg) \<and> list_all (builds e h) passes)))"
proof (intro conjI impI)
  assume l: "loadProgram e nm n = Some (True, n', es)"
  from loadProgram_success [OF l] obtain h src passes props dbg where
    s: "readAll e (effect_path nm) = Some src" "parseSource src = Some (passes, props, dbg)"
       "list_all is_debug dbg"
       "n' = n\<lparr>m_programs := map (\<lambda>p. Program vertexString (fragment_of h p)) passes\<rparr>"
       "es = dbg @ [Acquire, Store F_programs, Release]"
    by blast
  from s(4) show "n' = n\<lparr>m_programs := m_programs n'\<rparr>" by simp
  from s(4) show "m_inputCount n' = m_inputCount n" by simp
  from s(3,5) show "stores es = [F_programs]" by (simp add: stores_tail)
  from s parseSource_dbg [OF s(2)] parseSource_map [OF s(2)]
  show "\<exists>src passes props dbg. readAll e (effect_path nm) = Some src
            \<and> parseSource src = Some (passes, props, dbg)
            \<and> map_of props =
                map_of (rev (List.map_filter match_property (readLines src)) @ [(''inputCount'', ''1'')])
            \<and> dbg = map (\<lambda>(k, v). Debug (SettingProperty k v))
                       (List.map_filter match_property (readLines src))
            \<and> es = dbg @ [Acquire, Store F_programs, Release]"
    by blast
next
  from parseSource_total [of src] obtain passes props dbg where
    ps: "parseSource src = Some (passes, props, dbg)" by blast
  with parseSource_default [OF ps] parseSource_map [OF ps] parseSource_dbg [OF ps]
  show "\<exists>passes props dbg. parseSource src = Some (passes, props, dbg)
        \<and> map_of props =
            map_of (rev (List.map_filter match_property (readLines src)) @ [(''inputCount'', ''1'')])
        \<and> dbg = map (\<lambda>(k, v). Debug (SettingProperty k v))
                   (List.map_filter match_property (readLines src))
        \<and> ((\<forall>l\<in>set (readLines src). \<forall>v. match_property l \<noteq> Some (''inputCount'', v)) \<longrightarrow>
              map_of props ''inputCount'' = Some ''1'')"
    by blast
next
  assume u: "\<not> m_ready n"
  from loadProgram_outcome [OF u, of e nm]
  show "map_option fst (loadProgram e nm n) = Some True \<longleftrightarrow>
           (\<exists>h src passes props dbg. readAll e header_path = Some h \<and> isFile e (effect_path nm)
              \<and> readAll e (effect_path nm) = Some src
              \<and> parseSource src = Some (passes, props, dbg) \<and> list_all (builds e h) passes)"
    by (elim disjE exE conjE) auto
qed



section \<open>Witnesses on the examples\<close>

text \<open>
  The statements above at the example node, chain, sources and surroundings.
\<close>

lemma example_ready: "m_ready example_node"
  by (simp add: example_node_def)

lemma example_attached: "m_renderStates example_node (chain_id example_chain) = Some new_render_state"
  by (simp add: example_node_def example_chain_def)

lemma example_programs: "length (m_programs example_node) = 2"
  by (simp add: example_node_def)

lemma run3: "paints example_chain (replicate 3 ([7], example_env)) example_node = Some (example_run 3)"
  unfolding example_run_def by (rule is_Some) code_simp

lemma run4: "paints example_chain (replicate 4 ([7], example_env)) example_node = Some (example_run 4)"
  unfolding example_run_def by (rule is_Some) code_simp

lemma run4_textures: "fst (example_run 4) = [11, 12, 10, 11]"
  unfolding example_run_def by code_simp

text \<open>
  The example node has two programs. Painted three times, its cursor is back at 0; painted
  four times, it returns the textures 11, 12, 10, 11.
\<close>

theorem paint_ring_cursor_witness:
  "m_ready example_node
   \<and> m_renderStates example_node (chain_id example_chain) = Some new_render_state
   \<and> paint example_chain [7] example_env example_node = Some example_frame1
   \<and> paints example_chain (replicate 3 ([7], example_env)) example_node = Some (example_run 3)
   \<and> paints example_chain (replicate 4 ([7], example_env)) example_node = Some (example_run 4)
   \<and> (\<exists>rs1. m_renderStates (fst (snd example_frame1)) (chain_id example_chain) = Some rs1
         \<and> m_textureIndex rs1 = 1)
   \<and> (\<exists>rs'. m_renderStates (snd (example_run 3)) (chain_id example_chain) = Some rs'
         \<and> m_textureIndex rs' = 0)
   \<and> fst (example_run 4) ! 3 = fst (example_run 4) ! 0
   \<and> fst (example_run 4) = [11, 12, 10, 11]"
proof -
  have p1: "paint example_chain [7] example_env example_node =
              Some (fst example_frame1, fst (snd example_frame1), snd (snd example_frame1))"
    using frame1 by simp
  have p3: "paints example_chain (replicate 3 ([7], example_env)) example_node =
              Some (fst (example_run 3), snd (example_run 3))"
    using run3 by simp
  have p4: "paints example_chain (replicate 4 ([7], example_env)) example_node =
              Some (fst (example_run 4), snd (example_run 4))"
    using run4 by simp
  have ti: "m_textureIndex new_render_state = 0"
    by (simp add: new_render_state_def)
  note T = paint_ring_cursor [OF example_ready example_attached]
  from T [THEN conjunct1, THEN mp, OF p1]
  have A: "\<exists>rs1. m_renderStates (fst (snd example_frame1)) (chain_id example_chain) = Some rs1
         \<and> m_textureIndex rs1 = 1"
    by (auto simp: example_programs ti)
  from T [THEN conjunct2, THEN mp, OF p3]
  have B: "\<exists>rs'. m_renderStates (snd (example_run 3)) (chain_id example_chain) = Some rs'
         \<and> m_textureIndex rs' = 0"
    by (auto simp: example_programs ti)
  from T [THEN conjunct2, THEN mp, OF p4]
  have "\<forall>i. i + (length (m_programs example_node) + 1) < length (replicate 4 ([7::GLuint], example_env)) \<longrightarrow>
          fst (example_run 4) ! (i + (length (m_programs example_node) + 1)) = fst (example_run 4) ! i"
    by blast
  from this [THEN spec, of 0]
  have C: "fst (example_run 4) ! 3 = fst (example_run 4) ! 0"
    by (simp add: example_programs)
  from A B C example_ready example_attached frame1 run3 run4 run4_textures show ?thesis
    by simp
qed

text \<open>
  The unready example node, and the ready one painted for a chain (number 5) it does not
  hold.
\<close>

theorem paint_soft_failure_witness:
  "\<not> m_ready unready_node
   \<and> paint example_chain [7] example_env unready_node = Some (0, unready_node, [Debug NotReady])
   \<and> m_ready example_node
   \<and> m_renderStates example_node (chain_id (example_chain\<lparr>chain_id := 5\<rparr>)) = None
   \<and> paint (example_chain\<lparr>chain_id := 5\<rparr>) [7] example_env example_node =
        Some (0, example_node, [Debug (DoesNotHaveChain 5)])"
  using paint_soft_failure [of unready_node example_chain "[7]" example_env]
    paint_soft_failure [of example_node "example_chain\<lparr>chain_id := 5\<rparr>" "[7]" example_env]
  by (simp add: unready_node_def example_node_def)

text \<open>
  Claim C2 as stated fails: a node with three programs, painted three times and then
  reloaded with an effect of one pass, is ready with \<open>P = 1\<close>, the chain attached and the
  cursor at 3, which is not within \<open>[0, P]\<close>. Its next two \<^verbatim>\<open>paint\<close> calls return textures, and
  after these \<open>P + 1\<close> calls the cursor is at 1, not at its original value.
\<close>

theorem cursor_after_reload_counterexample:
  "\<not> Option.is_none (paints example_chain (replicate 3 ([7], example_env)) three_node)
   \<and> \<not> Option.is_none (initialize working_env
          (fst (reload (snd (the (paints example_chain (replicate 3 ([7], example_env)) three_node))))))
   \<and> m_ready stale_node
   \<and> length (m_programs stale_node) = 1
   \<and> map_option m_textureIndex (m_renderStates stale_node (chain_id example_chain)) = Some 3
   \<and> map_option fst (paints example_chain (replicate 2 ([7], example_env)) stale_node) = Some [10, 11]
   \<and> map_option m_textureIndex
        (m_renderStates (snd (the (paints example_chain (replicate 2 ([7], example_env)) stale_node)))
           (chain_id example_chain)) = Some 1"
proof -
  have "\<not> Option.is_none (paints example_chain (replicate 3 ([7], example_env)) three_node)"
    by code_simp
  moreover have "\<not> Option.is_none (initialize working_env
          (fst (reload (snd (the (paints example_chain (replicate 3 ([7], example_env)) three_node))))))"
    by code_simp
  moreover have "m_ready stale_node"
    by code_simp
  moreover have "length (m_programs stale_node) = 1"
    by code_simp
  moreover have "map_option m_textureIndex (m_renderStates stale_node (chain_id example_chain)) = Some 3"
    by code_simp
  moreover have "map_option fst (paints example_chain (replicate 2 ([7], example_env)) stale_node) = Some [10, 11]"
    by code_simp
  moreover have "map_option m_textureIndex
        (m_renderStates (snd (the (paints example_chain (replicate 2 ([7], example_env)) stale_node)))
           (chain_id example_chain)) = Some 1"
    by code_simp
  ultimately show ?thesis by blast
qed



lemma working_builds:
  "readAll working_env header_path = Some ''H''" "isFile working_env (effect_path ''purple'')"
  "readAll working_env (effect_path ''purple'') = Some property_source"
  "list_all (builds working_env ''H'') [[''#line 0'', ''#line 0'']]"
  using paths_distinct by (simp_all add: working_env_def builds_def)


text \<open>
  The effect \<^verbatim>\<open>purple\<close>, whose source sets \<^verbatim>\<open>inputCount\<close> to 2, loads and leaves the node's
  \<^verbatim>\<open>inputCount\<close> as it was; the example source, which sets \<^verbatim>\<open>foo\<close> only, has \<^verbatim>\<open>foo\<close> as 3 and
  \<^verbatim>\<open>inputCount\<close> as 1 in its map, and one \<^verbatim>\<open>qDebug\<close> line.
\<close>

theorem loadProgram_ignores_properties_witness:
  "loadProgram working_env ''purple'' unready_node =
     Some (True, loaded_node, [Debug (SettingProperty ''inputCount'' ''2''), Acquire, Store F_programs, Release])
   \<and> m_inputCount loaded_node = m_inputCount unready_node
   \<and> stores [Debug (SettingProperty ''inputCount'' ''2''), Acquire, Store F_programs, Release] = [F_programs]
   \<and> List.map_filter match_property (readLines example_source) = [(''foo'', ''3'')]
   \<and> (\<exists>passes props dbg. parseSource example_source = Some (passes, props, dbg)
         \<and> map_of props ''inputCount'' = Some ''1'' \<and> map_of props ''foo'' = Some ''3''
         \<and> dbg = [Debug (SettingProperty ''foo'' ''3'')])
   \<and> \<not> m_ready unready_node
   \<and> map_option fst (loadProgram working_env ''purple'' unready_node) = Some True"
proof -
  note T = loadProgram_ignores_properties [of working_env "''purple''" unready_node loaded_node
      "[Debug (SettingProperty ''inputCount'' ''2''), Acquire, Store F_programs, Release]" example_source]
  have rl: "readLines example_source = [''#property foo 3'', ''LINE_A'', ''#buffershader'', ''LINE_B'']"
    by code_simp
  have mps: "match_property ''#property foo 3'' = Some (''foo'', ''3'')" "match_property ''LINE_A'' = None"
    "match_property ''#buffershader'' = None" "match_property ''LINE_B'' = None"
    by code_simp+
  have h: "\<forall>l\<in>set (readLines example_source). \<forall>v. match_property l \<noteq> Some (''inputCount'', v)"
    by (simp add: rl mps)
  from T [THEN conjunct1, THEN mp, OF load_working]
  have A: "m_inputCount loaded_node = m_inputCount unready_node"
    "stores [Debug (SettingProperty ''inputCount'' ''2''), Acquire, Store F_programs, Release] = [F_programs]"
    by simp_all
  have mf: "List.map_filter match_property (readLines example_source) = [(''foo'', ''3'')]"
    by (simp add: rl mps List.map_filter_simps)
  from T [THEN conjunct2, THEN conjunct1] obtain passes props dbg where
    ps: "parseSource example_source = Some (passes, props, dbg)" and
    m: "map_of props =
          map_of (rev (List.map_filter match_property (readLines example_source)) @ [(''inputCount'', ''1'')])" and
    d: "dbg = map (\<lambda>(k, v). Debug (SettingProperty k v))
                (List.map_filter match_property (readLines example_source))" and
    i: "(\<forall>l\<in>set (readLines example_source). \<forall>v. match_property l \<noteq> Some (''inputCount'', v)) \<longrightarrow>
          map_of props ''inputCount'' = Some ''1''"
    by (elim exE conjE) (rule that)
  from i h have i1: "map_of props ''inputCount'' = Some ''1''" by (rule mp)
  from m have f3: "map_of props ''foo'' = Some ''3''" by (simp add: mf)
  from d have d1: "dbg = [Debug (SettingProperty ''foo'' ''3'')]" by (simp add: mf)
  from ps i1 f3 d1
  have B: "\<exists>passes props dbg. parseSource example_source = Some (passes, props, dbg)
         \<and> map_of props ''inputCount'' = Some ''1'' \<and> map_of props ''foo'' = Some ''3''
         \<and> dbg = [Debug (SettingProperty ''foo'' ''3'')]"
    by blast
  from T [THEN conjunct2, THEN conjunct2, THEN mp, OF unready] working_builds parse_inputCount_2
  have C: "map_option fst (loadProgram working_env ''purple'' unready_node) = Some True"
    by blast
  from A B C mf load_working unready show ?thesis by blast
qed

text \<open>
  The example source parses into passes that all build in the working surroundings, and
  the load of the effect \<^verbatim>\<open>purple\<close> succeeds without the \<^verbatim>\<open>No shaders found\<close> signal.
\<close>

theorem parser_always_has_a_pass_witness:
  "loadProgram working_env ''purple'' unready_node =
     Some (True, loaded_node, [Debug (SettingProperty ''inputCount'' ''2''), Acquire, Store F_programs, Release])
   \<and> Fatal (no_shaders_found ''purple'')
        \<notin> set (emitted [Debug (SettingProperty ''inputCount'' ''2''), Acquire, Store F_programs, Release])
   \<and> m_programs loaded_node \<noteq> []
   \<and> (\<exists>passes props dbg. parseSource example_source = Some (passes, props, dbg) \<and> passes \<noteq> []
         \<and> list_all marked passes
         \<and> compilePasses working_env ''H'' passes [] =
             Inr (map (\<lambda>p. Program vertexString (fragment_of ''H'' p)) passes)
         \<and> map (\<lambda>p. Program vertexString (fragment_of ''H'' p)) passes \<noteq> [])"
proof -
  note T = parser_always_has_a_pass [of example_source working_env "''H''" "''purple''" unready_node True
      loaded_node "[Debug (SettingProperty ''inputCount'' ''2''), Acquire, Store F_programs, Release]"]
  from T [THEN conjunct2, THEN mp, OF load_working]
  have A: "Fatal (no_shaders_found ''purple'')
        \<notin> set (emitted [Debug (SettingProperty ''inputCount'' ''2''), Acquire, Store F_programs, Release])"
    "m_programs loaded_node \<noteq> []"
    by simp_all
  from T [THEN conjunct1] obtain passes props dbg where
    ps: "parseSource example_source = Some (passes, props, dbg)" and ne: "passes \<noteq> []"
    and mk: "list_all marked passes"
    and cp: "\<forall>programs. compilePasses working_env ''H'' passes [] = Inr programs \<longrightarrow> programs \<noteq> []"
    by blast
  from ps example_source_parsed
  have passes: "passes = [[''#line 0'', ''#line 0'', ''LINE_A''], [''#line 2'', ''LINE_B'']]" by simp
  have c: "compilePasses working_env ''H'' passes [] =
             Inr (map (\<lambda>p. Program vertexString (fragment_of ''H'' p)) passes)"
    by (simp add: passes working_env_def)
  with cp have "map (\<lambda>p. Program vertexString (fragment_of ''H'' p)) passes \<noteq> []" by blast
  with A ps ne mk c load_working show ?thesis by blast
qed

text \<open>
  The example node and its copy after one \<^verbatim>\<open>paint\<close>: for the attached chain the cursor 1 of
  the copy is written back; for chain 5, which the node does not hold, nothing changes.
\<close>

theorem copyBackRenderState_frame_witness:
  "m_renderStates example_node (chain_id (example_chain\<lparr>chain_id := 5\<rparr>)) = None
   \<and> copyBackRenderState (example_chain\<lparr>chain_id := 5\<rparr>) (fst (snd example_frame1)) example_node =
       Some (example_node, [Acquire, Debug ChainDeleted, Release])
   \<and> m_renderStates example_node (chain_id example_chain) \<noteq> None
   \<and> m_renderStates (fst (snd example_frame1)) (chain_id example_chain) =
        Some (the (m_renderStates (fst (snd example_frame1)) (chain_id example_chain)))
   \<and> copyBackRenderState example_chain (fst (snd example_frame1)) example_node =
       Some (example_node\<lparr>m_renderStates := (m_renderStates example_node)
               (chain_id example_chain \<mapsto>
                  the (m_renderStates (fst (snd example_frame1)) (chain_id example_chain)))\<rparr>,
             [Acquire, Store F_renderStates, Release])
   \<and> m_textureIndex (the (m_renderStates (fst (snd example_frame1)) (chain_id example_chain))) = 1"
proof -
  have h1: "m_renderStates example_node (chain_id (example_chain\<lparr>chain_id := 5\<rparr>)) = None"
    by (simp add: example_node_def)
  have h2: "m_renderStates example_node (chain_id example_chain) \<noteq> None"
    by (simp add: example_attached)
  note T1 = copyBackRenderState_frame [of example_node "example_chain\<lparr>chain_id := 5\<rparr>" "fst (snd example_frame1)"]
  note T2 = copyBackRenderState_frame [of example_node example_chain "fst (snd example_frame1)"
      "the (m_renderStates (fst (snd example_frame1)) (chain_id example_chain))"]
  from T1 [THEN conjunct1, THEN mp, OF h1]
  have A: "copyBackRenderState (example_chain\<lparr>chain_id := 5\<rparr>) (fst (snd example_frame1)) example_node =
       Some (example_node, [Acquire, Debug ChainDeleted, Release])" .
  from T2 [THEN conjunct2, THEN conjunct1, THEN mp, OF conjI, OF h2 frame1_attached]
  have B: "copyBackRenderState example_chain (fst (snd example_frame1)) example_node =
       Some (example_node\<lparr>m_renderStates := (m_renderStates example_node)
               (chain_id example_chain \<mapsto>
                  the (m_renderStates (fst (snd example_frame1)) (chain_id example_chain)))\<rparr>,
             [Acquire, Store F_renderStates, Release])" .
  from A B h1 h2 frame1_attached frame1_cursor show ?thesis by blast
qed

end
